theory Spec2Isabelle
  imports Complex_Main "HOL-Library.Sublist"
begin

section \<open>Python values, strings and dictionaries\<close>

text \<open>
  A Python \<open>str\<close> is modelled as a \<open>string\<close> whose characters are the code points
  U+0000 to U+00FF (one \<open>char\<close> per code point). The classifications used by the source
  (\<open>str.isdigit\<close>, \<open>str.isspace\<close> as used by \<open>str.strip\<close>, \<open>str.lower\<close> and the regular
  expression class \<open>\w\<close>) are the ones Python 3 applies on that range. Code points above
  U+00FF and log output are not modelled. Of the clock, the model keeps the reading
  \<open>sequence_start\<close> that a sequential run stores in its context and subtracts from at its
  end; the values of the other readings (\<open>timestamp\<close>, \<open>created\<close>, \<open>duration\<close>) are left
  out of the records.
\<close>

definition cp :: "char \<Rightarrow> nat" where
  "cp c = of_char c"

definition newline :: char where
  "newline = CHR 0x0A"

definition is_decimal :: "char \<Rightarrow> bool" where
  \<comment> \<open>the characters \<open>int\<close> and \<open>float\<close> accept as digits\<close>
  "is_decimal c = (48 \<le> cp c \<and> cp c \<le> 57)"

definition is_digit :: "char \<Rightarrow> bool" where
  \<comment> \<open>\<open>str.isdigit\<close> on one character: the decimal digits and the superscripts
      U+00B2, U+00B3, U+00B9\<close>
  "is_digit c = (is_decimal c \<or> cp c = 178 \<or> cp c = 179 \<or> cp c = 185)"

definition is_space :: "char \<Rightarrow> bool" where
  "is_space c = ((9 \<le> cp c \<and> cp c \<le> 13) \<or> (28 \<le> cp c \<and> cp c \<le> 32)
                 \<or> cp c = 133 \<or> cp c = 160)"

definition is_ascii_letter :: "char \<Rightarrow> bool" where
  "is_ascii_letter c = ((65 \<le> cp c \<and> cp c \<le> 90) \<or> (97 \<le> cp c \<and> cp c \<le> 122))"

definition is_word :: "char \<Rightarrow> bool" where
  \<comment> \<open>the class \<open>\w\<close> of a \<open>str\<close> pattern\<close>
  "is_word c = (is_ascii_letter c \<or> is_decimal c \<or> cp c = 95
                \<or> cp c = 170 \<or> cp c = 178 \<or> cp c = 179 \<or> cp c = 181
                \<or> cp c = 185 \<or> cp c = 186 \<or> (188 \<le> cp c \<and> cp c \<le> 190)
                \<or> (192 \<le> cp c \<and> cp c \<le> 214) \<or> (216 \<le> cp c \<and> cp c \<le> 246)
                \<or> 248 \<le> cp c)"

definition char_lower :: "char \<Rightarrow> char" where
  "char_lower c =
     (if (65 \<le> cp c \<and> cp c \<le> 90) \<or> (192 \<le> cp c \<and> cp c \<le> 214)
          \<or> (216 \<le> cp c \<and> cp c \<le> 222)
      then char_of (cp c + 32) else c)"

definition lower :: "string \<Rightarrow> string" where
  "lower s = map char_lower s"

definition isdigit :: "string \<Rightarrow> bool" where
  "isdigit s = (s \<noteq> [] \<and> list_all is_digit s)"

definition strip :: "string \<Rightarrow> string" where
  "strip s = rev (dropWhile is_space (rev (dropWhile is_space s)))"

fun split :: "char \<Rightarrow> string \<Rightarrow> string list" where
  "split sep [] = [[]]"
| "split sep (c # cs) =
     (if c = sep then [] # split sep cs
      else (case split sep cs of
              [] \<Rightarrow> [[c]]
            | w # ws \<Rightarrow> (c # w) # ws))"

definition split1 :: "char \<Rightarrow> string \<Rightarrow> string \<times> string" where
  \<comment> \<open>\<open>s.split(sep, 1)\<close> for an \<open>s\<close> that contains \<open>sep\<close>\<close>
  "split1 sep s = (takeWhile (\<lambda>c. c \<noteq> sep) s, drop 1 (dropWhile (\<lambda>c. c \<noteq> sep) s))"

definition replace_first :: "char \<Rightarrow> string \<Rightarrow> string" where
  \<comment> \<open>\<open>s.replace(c, '', 1)\<close>\<close>
  "replace_first c s = remove1 c s"

fun join :: "string \<Rightarrow> string list \<Rightarrow> string" where
  "join sep [] = []"
| "join sep [x] = x"
| "join sep (x # y # ys) = x @ sep @ join sep (y # ys)"

fun str_contains :: "string \<Rightarrow> string \<Rightarrow> bool" where
  \<comment> \<open>\<open>sub in s\<close>\<close>
  "str_contains sub [] = (sub = [])"
| "str_contains sub (c # cs) = (prefix sub (c # cs) \<or> str_contains sub cs)"

fun digits_of_nat :: "nat \<Rightarrow> string" where
  "digits_of_nat n =
     (if n < 10 then [char_of (48 + n)]
      else digits_of_nat (n div 10) @ [char_of (48 + n mod 10)])"

definition str_int :: "int \<Rightarrow> string" where
  \<comment> \<open>\<open>str(n)\<close> of an integer\<close>
  "str_int n = (if n < 0 then CHR ''-'' # digits_of_nat (nat (- n)) else digits_of_nat (nat n))"

datatype pyval =
    VNone
  | VBool bool
  | VInt int
  | VFloat string  \<comment> \<open>the float that \<open>float\<close> returns for this decimal text\<close>
  | VStr string
  | VDatetime string  \<comment> \<open>a \<open>datetime\<close> object, named by its text\<close>
  | VList "pyval list"
  | VDict "(string \<times> pyval) list"

type_synonym 'v dict = "(string \<times> 'v) list"

text \<open>
  A dictionary is an association list in insertion order: storing under a key that is
  present replaces its value in place, storing under a new key appends.
\<close>

fun dict_set :: "string \<Rightarrow> 'v \<Rightarrow> 'v dict \<Rightarrow> 'v dict" where
  "dict_set k v [] = [(k, v)]"
| "dict_set k v ((k', v') # d) =
     (if k' = k then (k, v) # d else (k', v') # dict_set k v d)"

definition dict_get :: "'v dict \<Rightarrow> string \<Rightarrow> 'v option" where
  "dict_get d k = map_of d k"

definition dict_has :: "'v dict \<Rightarrow> string \<Rightarrow> bool" where
  \<comment> \<open>\<open>k in d\<close>\<close>
  "dict_has d k = (map_of d k \<noteq> None)"

definition dict_del :: "string \<Rightarrow> 'v dict \<Rightarrow> 'v dict" where
  "dict_del k d = filter (\<lambda>p. fst p \<noteq> k) d"

definition dict_update :: "'v dict \<Rightarrow> 'v dict \<Rightarrow> 'v dict" where
  \<comment> \<open>\<open>{**d, **e}\<close>\<close>
  "dict_update d e = foldl (\<lambda>acc p. dict_set (fst p) (snd p) acc) d e"

datatype exc_class = Exception | ValueError | TypeError | KeyError

datatype pyexn = PyExn exc_class string

fun str_exn :: "pyexn \<Rightarrow> string" where
  \<comment> \<open>\<open>str(e)\<close>\<close>
  "str_exn (PyExn c m) = m"

definition repr_plain :: "string \<Rightarrow> string" where
  \<comment> \<open>\<open>repr\<close> of a text without quotes, backslashes or control characters\<close>
  "repr_plain s = [CHR 0x27] @ s @ [CHR 0x27]"

section \<open>The parser of \<open>jump_codes.py\<close>\<close>

definition int_of_digits :: "string \<Rightarrow> int" where
  "int_of_digits s = foldl (\<lambda>a c. 10 * a + (int (cp c) - 48)) 0 s"

definition int_max_str_digits :: nat where
  \<comment> \<open>the interpreter's limit on the digits \<open>int\<close> converts, at its default\<close>
  "int_max_str_digits = 4300"

definition py_int :: "string \<Rightarrow> pyexn + pyval" where
  \<comment> \<open>\<open>int(value)\<close> for a value on which \<open>isdigit\<close> holds: the decimal digits at the
      start are counted against the limit before the rest of the text is looked at\<close>
  "py_int s =
     (let run = takeWhile is_decimal s in
      if length run > int_max_str_digits
      then Inl (PyExn ValueError
                  (''Exceeds the limit ('' @ str_int (int int_max_str_digits)
                   @ '' digits) for integer string conversion: value has ''
                   @ str_int (int (length run))
                   @ '' digits; use sys.set_int_max_str_digits() to increase the limit''))
      else if run = s then Inr (VInt (int_of_digits s))
      else Inl (PyExn ValueError (''invalid literal for int() with base 10: '' @ repr_plain s)))"

definition py_float :: "string \<Rightarrow> pyexn + pyval" where
  \<comment> \<open>\<open>float(value)\<close> for a value that is \<open>isdigit\<close> characters around one point\<close>
  "py_float s =
     (if list_all is_decimal (replace_first CHR ''.'' s) then Inr (VFloat s)
      else Inl (PyExn ValueError (''could not convert string to float: '' @ repr_plain s)))"

definition coerce_value :: "string \<Rightarrow> pyexn + pyval" where
  \<comment> \<open>lines 158 to 165 of \<open>_parse_jump_code\<close>\<close>
  "coerce_value v =
     (if lower v = ''true'' \<or> lower v = ''false'' then Inr (VBool (lower v = ''true''))
      else if isdigit v then py_int v
      else if isdigit (replace_first CHR ''.'' v) then py_float v
      else Inr (VStr v))"

definition parse_param :: "string \<Rightarrow> pyval dict \<Rightarrow> pyexn + pyval dict" where
  \<comment> \<open>one round of the loop over \<open>params_str.split(',')\<close>\<close>
  "parse_param tok parameters =
     (let param = strip tok in
      if CHR ''='' \<in> set param then
        (let key = strip (fst (split1 CHR ''='' param));
             v = strip (snd (split1 CHR ''='' param))
         in case coerce_value v of
              Inl e \<Rightarrow> Inl e
            | Inr x \<Rightarrow> Inr (dict_set key x parameters))
      else Inr (dict_set param (VBool True) parameters))"

fun parse_params :: "string list \<Rightarrow> pyval dict \<Rightarrow> pyexn + pyval dict" where
  "parse_params [] parameters = Inr parameters"
| "parse_params (tok # toks) parameters =
     (case parse_param tok parameters of
        Inl e \<Rightarrow> Inl e
      | Inr parameters' \<Rightarrow> parse_params toks parameters')"

definition match_code :: "string \<Rightarrow> (string \<times> string option) option" where
  \<comment> \<open>\<open>re.match(r'^(\w+)(?::(.+))?$', s)\<close>: the two groups, or no match. \<open>.\<close> matches
      every character but the newline, and \<open>$\<close> matches at the end and before a newline
      that ends the text.\<close>
  "match_code s =
     (let name = takeWhile is_word s; rest = dropWhile is_word s in
      if name = [] then None
      else if rest = [] \<or> rest = [newline] then Some (name, None)
      else (case rest of
              [] \<Rightarrow> None
            | c # ps \<Rightarrow>
                (let body = takeWhile (\<lambda>x. x \<noteq> newline) ps;
                     tail = dropWhile (\<lambda>x. x \<noteq> newline) ps
                 in if c = CHR '':'' \<and> body \<noteq> [] \<and> (tail = [] \<or> tail = [newline])
                    then Some (name, Some body) else None)))"

definition remove_sigil :: "string \<Rightarrow> string" where
  \<comment> \<open>lines 134 and 135: the \<open>@\<close> prefix is removed if present\<close>
  "remove_sigil code_string =
     (if prefix ''@'' code_string then drop 1 code_string else code_string)"

record parsed =
  p_code :: string
  p_parameters :: "pyval dict"

definition parse_jump_code :: "string \<Rightarrow> pyexn + parsed" where
  \<comment> \<open>\<open>JumpCodeRegistry._parse_jump_code\<close>\<close>
  "parse_jump_code code_string =
     (let s = remove_sigil code_string in
      case match_code s of
        None \<Rightarrow> Inl (PyExn ValueError (''Invalid jump code format: '' @ s))
      | Some (code, g2) \<Rightarrow>
          (case g2 of
             None \<Rightarrow> Inr \<lparr>p_code = code, p_parameters = []\<rparr>
           | Some params_str \<Rightarrow>
               (case parse_params (split CHR '','' params_str) [] of
                  Inl e \<Rightarrow> Inl e
                | Inr parameters \<Rightarrow> Inr \<lparr>p_code = code, p_parameters = parameters\<rparr>)))"

section \<open>The registry of \<open>jump_codes.py\<close>\<close>

text \<open>
  A handler is called with the context dictionary, which it receives by reference, and
  the merged parameters; it returns a value or raises. The model passes the context in
  and takes the context as the handler left it back, together with the outcome.
\<close>

type_synonym pycontext = "pyval dict"

type_synonym handler = "pycontext \<Rightarrow> pyval dict \<Rightarrow> pycontext \<times> (pyexn + pyval)"

record JumpCode =
  jc_code :: string
  jc_description :: string
  jc_handler :: handler
  jc_parameters :: "pyval dict"
  jc_aliases :: "string list"
  jc_context_required :: "string list"

record registry =
  codes :: "JumpCode dict"
  aliases :: "string dict"

definition valid_identifier :: "string \<Rightarrow> bool" where
  \<comment> \<open>\<open>re.match(r'^[a-zA-Z_]\w*$', s)\<close>\<close>
  "valid_identifier s =
     (case s of
        [] \<Rightarrow> False
      | c # cs \<Rightarrow> (is_ascii_letter c \<or> c = CHR ''_'')
                 \<and> (dropWhile is_word cs = [] \<or> dropWhile is_word cs = [newline]))"

definition register :: "registry \<Rightarrow> JumpCode \<Rightarrow> pyexn + registry" where
  "register reg jump_code =
     (if \<not> valid_identifier (jc_code jump_code)
      then Inl (PyExn ValueError (''Invalid jump code format: '' @ jc_code jump_code))
      else Inr \<lparr>codes = dict_set (jc_code jump_code) jump_code (codes reg),
                aliases = foldl (\<lambda>als alias. dict_set alias (jc_code jump_code) als)
                                (aliases reg) (jc_aliases jump_code)\<rparr>)"

definition unregister :: "registry \<Rightarrow> string \<Rightarrow> registry \<times> bool" where
  "unregister reg code =
     (case dict_get (codes reg) code of
        Some jump_code \<Rightarrow>
          (\<lparr>codes = dict_del code (codes reg),
            aliases = foldl (\<lambda>als alias. if dict_has als alias then dict_del alias als else als)
                            (aliases reg) (jc_aliases jump_code)\<rparr>, True)
      | None \<Rightarrow> (reg, False))"

definition validate_context :: "string list \<Rightarrow> pycontext \<Rightarrow> pyexn option" where
  \<comment> \<open>\<open>_validate_context\<close>: the exception it raises, if any\<close>
  "validate_context required ctx =
     (let missing = filter (\<lambda>key. \<not> dict_has ctx key) required in
      if missing \<noteq> []
      then Some (PyExn ValueError (''Missing required context: '' @ join '', '' missing))
      else None)"

definition resolve_alias :: "registry \<Rightarrow> string \<Rightarrow> string" where
  \<comment> \<open>lines 107 and 108 of \<open>execute\<close>\<close>
  "resolve_alias reg code_name =
     (case dict_get (aliases reg) code_name of
        Some target \<Rightarrow> target
      | None \<Rightarrow> code_name)"

definition resolve_call :: "registry \<Rightarrow> string \<Rightarrow> pycontext \<Rightarrow> pyexn + (JumpCode \<times> pyval dict)" where
  \<comment> \<open>lines 102 to 121 of \<open>execute\<close>: parse, resolve the alias, look the code up, validate
      the context and merge the parameters with the defaults\<close>
  "resolve_call reg code_string ctx =
     (case parse_jump_code code_string of
        Inl e \<Rightarrow> Inl e
      | Inr p \<Rightarrow>
          (let code_name = resolve_alias reg (p_code p)
           in case dict_get (codes reg) code_name of
                None \<Rightarrow> Inl (PyExn ValueError (''Unknown jump code: '' @ code_name))
              | Some jump_code \<Rightarrow>
                  (case (if jc_context_required jump_code \<noteq> []
                         then validate_context (jc_context_required jump_code) ctx
                         else None) of
                     Some e \<Rightarrow> Inl e
                   | None \<Rightarrow>
                       Inr (jump_code, dict_update (jc_parameters jump_code) (p_parameters p)))))"

definition call_handler :: "JumpCode \<Rightarrow> pycontext \<Rightarrow> pyval dict \<Rightarrow> pycontext \<times> (pyexn + pyval)" where
  \<comment> \<open>\<open>jump_code.handler(context=context, **final_params)\<close>; the message of the
      \<open>TypeError\<close> is given without the name of the function\<close>
  "call_handler jump_code ctx final_params =
     (if dict_has final_params ''context''
      then (ctx, Inl (PyExn TypeError
                        (''got multiple values for keyword argument '' @ repr_plain ''context'')))
      else jc_handler jump_code ctx final_params)"

definition execute :: "registry \<Rightarrow> string \<Rightarrow> pycontext \<Rightarrow> pycontext \<times> (pyexn + pyval)" where
  \<comment> \<open>\<open>JumpCodeRegistry.execute\<close>; \<open>Inl e\<close> is the exception \<open>e\<close> leaving \<open>execute\<close>:
      the \<open>except\<close> clause logs and re-raises\<close>
  "execute reg code_string ctx =
     (case resolve_call reg code_string ctx of
        Inl e \<Rightarrow> (ctx, Inl e)
      | Inr (jump_code, final_params) \<Rightarrow> call_handler jump_code ctx final_params)"

section \<open>Sequential execution (\<open>advanced_jump_codes.py\<close>)\<close>

record step =
  st_code :: string
  st_success :: bool
  st_result :: "pyval option"
  st_error :: "string option"
  st_position :: nat

definition step_ok :: "string \<Rightarrow> pyval \<Rightarrow> nat \<Rightarrow> step" where
  "step_ok code result i =
     \<lparr>st_code = code, st_success = True, st_result = Some result, st_error = None,
      st_position = i\<rparr>"

definition step_failed :: "string \<Rightarrow> pyexn \<Rightarrow> nat \<Rightarrow> step" where
  "step_failed code e i =
     \<lparr>st_code = code, st_success = False, st_result = None, st_error = Some (str_exn e),
      st_position = i\<rparr>"

definition step_value :: "step \<Rightarrow> pyval" where
  \<comment> \<open>the dictionary appended to \<open>results\<close>\<close>
  "step_value s =
     VDict ([(''code'', VStr (st_code s)), (''success'', VBool (st_success s))]
            @ (case st_result s of Some r \<Rightarrow> [(''result'', r)] | None \<Rightarrow> [])
            @ (case st_error s of Some m \<Rightarrow> [(''error'', VStr m)] | None \<Rightarrow> [])
            @ [(''position'', VInt (int (st_position s)))])"

definition protected_keys :: "string list" where
  "protected_keys = [''sequence_id'', ''sequence_position'', ''previous_results'']"

fun merge_result :: "pycontext \<Rightarrow> pyval \<Rightarrow> pycontext" where
  \<comment> \<open>lines 46 to 52: a result that is a dictionary is merged into the shared context\<close>
  "merge_result ctx (VDict d) =
     foldl (\<lambda>c p. if fst p \<notin> set protected_keys then dict_set (fst p) (snd p) c else c) ctx d"
| "merge_result ctx _ = ctx"

definition critical_errors :: "string list" where
  "critical_errors =
     [''Missing required context'', ''Unknown jump code'', ''Invalid jump code format'']"

definition should_abort_sequence :: "pyexn \<Rightarrow> int \<Rightarrow> int \<Rightarrow> bool" where
  "should_abort_sequence error position tot =
     (if list_ex (\<lambda>critical. str_contains critical (str_exn error)) critical_errors then True
      else if position = tot - 1 then False
      else False)"

definition step_context :: "nat \<Rightarrow> step list \<Rightarrow> pycontext \<Rightarrow> pycontext" where
  \<comment> \<open>lines 31 and 32\<close>
  "step_context i results ctx =
     dict_set ''previous_results'' (VList (map step_value results))
       (dict_set ''sequence_position'' (VInt (int i)) ctx)"

fun run_steps :: "registry \<Rightarrow> nat \<Rightarrow> nat \<Rightarrow> string list \<Rightarrow> pycontext \<Rightarrow> step list
                  \<Rightarrow> pycontext \<times> step list" where
  \<comment> \<open>the loop of \<open>execute_sequence\<close> from position \<open>i\<close> on\<close>
  "run_steps reg tot i [] ctx results = (ctx, results)"
| "run_steps reg tot i (code # rest) ctx results =
     (case execute reg code (step_context i results ctx) of
        (ctx', Inr result) \<Rightarrow>
          run_steps reg tot (Suc i) rest (merge_result ctx' result)
            (results @ [step_ok code result i])
      | (ctx', Inl e) \<Rightarrow>
          (if should_abort_sequence e (int i) (int tot)
           then (ctx', results @ [step_failed code e i])
           else run_steps reg tot (Suc i) rest ctx' (results @ [step_failed code e i])))"

record sequence_record =
  sr_sequence :: "string list"
  sr_results :: "step list"
  sr_completed :: bool
  sr_success_rate :: rat

record sequential =
  sq_registry :: registry
  sequence_memory :: "sequence_record list"
  max_memory_size :: int

definition new_sequential :: "registry \<Rightarrow> sequential" where
  \<comment> \<open>\<open>SequentialJumpCodes.__init__\<close>\<close>
  "new_sequential reg = \<lparr>sq_registry = reg, sequence_memory = [], max_memory_size = 100\<rparr>"

definition slice_from :: "int \<Rightarrow> 'a list \<Rightarrow> 'a list" where
  \<comment> \<open>\<open>xs[i:]\<close>\<close>
  "slice_from i xs = (if i < 0 then drop (nat (int (length xs) + i)) xs else drop (nat i) xs)"

definition add_to_memory :: "sequential \<Rightarrow> sequence_record \<Rightarrow> sequential" where
  \<comment> \<open>\<open>_add_to_memory\<close>\<close>
  "add_to_memory sq rec =
     (let mem = sequence_memory sq @ [rec] in
      if int (length mem) > max_memory_size sq
      then sq\<lparr>sequence_memory := slice_from (- max_memory_size sq) mem\<rparr>
      else sq\<lparr>sequence_memory := mem\<rparr>)"

definition type_name :: "pyval \<Rightarrow> string" where
  "type_name v =
     (case v of
        VNone \<Rightarrow> ''NoneType''
      | VBool b \<Rightarrow> ''bool''
      | VInt n \<Rightarrow> ''int''
      | VFloat x \<Rightarrow> ''float''
      | VStr x \<Rightarrow> ''str''
      | VDatetime x \<Rightarrow> ''datetime.datetime''
      | VList xs \<Rightarrow> ''list''
      | VDict d \<Rightarrow> ''dict'')"

definition elapsed :: "pycontext \<Rightarrow> pyexn option" where
  \<comment> \<open>line 74, \<open>datetime.now() - shared_context['sequence_start']\<close>: the exception it
      raises, if any. The key is not protected, so a step may have replaced the reading or
      removed it.\<close>
  "elapsed ctx =
     (case dict_get ctx ''sequence_start'' of
        None \<Rightarrow> Some (PyExn KeyError (repr_plain ''sequence_start''))
      | Some v \<Rightarrow>
          (case v of
             VDatetime x \<Rightarrow> None
           | _ \<Rightarrow> Some (PyExn TypeError
                          (''unsupported operand type(s) for -: ''
                           @ repr_plain ''datetime.datetime'' @ '' and ''
                           @ repr_plain (type_name v)))))"

definition execute_sequence :: "sequential \<Rightarrow> string \<Rightarrow> string \<Rightarrow> string list
                                 \<Rightarrow> sequential \<times> (pyexn + step list)" where
  \<comment> \<open>\<open>execute_sequence\<close>; \<open>sequence_id\<close> and \<open>sequence_start\<close> are the two clock readings
      taken at the start. An exception raised while the record is built leaves
      \<open>execute_sequence\<close> before anything is added to the memory.\<close>
  "execute_sequence sq sequence_id sequence_start sequence =
     (case run_steps (sq_registry sq) (length sequence) 0 sequence
             [(''sequence_id'', VStr sequence_id),
              (''sequence_start'', VDatetime sequence_start)] [] of
        (shared_context, results) \<Rightarrow>
          (case elapsed shared_context of
             Some e \<Rightarrow> (sq, Inl e)
           | None \<Rightarrow>
               (add_to_memory sq
                  \<lparr>sr_sequence = sequence, sr_results = results,
                   sr_completed = (length results = length sequence),
                   sr_success_rate =
                     (if results \<noteq> []
                      then of_nat (length (filter st_success results))
                           / of_nat (length results)
                      else 0)\<rparr>,
                Inr results)))"

section \<open>Macros (\<open>advanced_jump_codes.py\<close>)\<close>

record macro =
  m_sequence :: "string list"
  m_description :: string
  m_parameters :: "string list"
  m_usage_count :: nat

type_synonym macros = "macro dict"

text \<open>
  The exceptions of the macro functions, each a \<open>ValueError\<close> (the last a \<open>KeyError\<close>)
  whose message is formatted from the values kept here:
  \<open>Unknown macro: {name}\<close>,
  \<open>Missing required parameters for macro '{name}': {missing_params}\<close>,
  \<open>Invalid macro name format: {name}\<close>, and the key that a loaded document lacks.
\<close>

datatype macro_error =
    UnknownMacro string
  | MissingParameters string "string list"
  | InvalidMacroName string
  | MissingKey string

definition define_macro :: "macros \<Rightarrow> string \<Rightarrow> string list \<Rightarrow> string \<Rightarrow> string list option
                             \<Rightarrow> macro_error + macros" where
  "define_macro ms name sequence description parameters =
     (if \<not> valid_identifier name then Inl (InvalidMacroName name)
      else Inr (dict_set name
                  \<lparr>m_sequence = sequence, m_description = description,
                   m_parameters = (case parameters of None \<Rightarrow> [] | Some ps \<Rightarrow> ps),
                   m_usage_count = 0\<rparr> ms))"

definition match_placeholder :: "string \<Rightarrow> (string \<times> string) option" where
  \<comment> \<open>a match of \<open>\$\{(\w+)\}\<close> at the start of the text: the group and the text after
      the match\<close>
  "match_placeholder s =
     (if prefix ''${'' s
      then (let name = takeWhile is_word (drop 2 s); rest = dropWhile is_word (drop 2 s) in
            if name \<noteq> [] \<and> prefix ''}'' rest then Some (name, drop 1 rest) else None)
      else None)"

function substitute_params :: "string \<Rightarrow> string dict \<Rightarrow> string" where
  \<comment> \<open>\<open>_substitute_params\<close>: \<open>re.sub\<close> scans from the left, and the text it puts in is
      not scanned again\<close>
  "substitute_params [] params = []"
| "substitute_params (c # cs) params =
     (case match_placeholder (c # cs) of
        Some (param_name, rest) \<Rightarrow>
          (case dict_get params param_name of
             Some v \<Rightarrow> v
           | None \<Rightarrow> ''${'' @ param_name @ ''}'') @ substitute_params rest params
      | None \<Rightarrow> c # substitute_params cs params)"
  by pat_completeness auto
termination
proof (relation "measure (\<lambda>(s, params). length s)")
  show "wf (measure (\<lambda>(s, params :: string dict). length s))"
    by simp
next
  fix c :: char and cs :: string and params :: "string dict" and x2 :: "string \<times> string"
    and x y :: string
  assume m: "match_placeholder (c # cs) = Some x2" and x2: "(x, y) = x2"
  have "length (dropWhile is_word (drop 2 (c # cs))) \<le> length (c # cs)"
    by (rule order_trans [OF length_dropWhile_le]) simp
  with m x2 show "((y, params), (c # cs, params)) \<in> measure (\<lambda>(s, params). length s)"
    by (auto simp: match_placeholder_def Let_def prefix_def split: if_splits)
next
  fix c :: char and cs :: string and params :: "string dict"
  show "((cs, params), (c # cs, params)) \<in> measure (\<lambda>(s, params). length s)"
    by simp
qed

definition expand_macro :: "macros \<Rightarrow> string \<Rightarrow> string dict option
                             \<Rightarrow> macros \<times> (macro_error + string list)" where
  "expand_macro ms name params_arg =
     (case dict_get ms name of
        None \<Rightarrow> (ms, Inl (UnknownMacro name))
      | Some macro \<Rightarrow>
          (let params = (case params_arg of None \<Rightarrow> [] | Some ps \<Rightarrow> ps);
               missing_params = filter (\<lambda>p. \<not> dict_has params p) (m_parameters macro)
           in if missing_params \<noteq> [] then (ms, Inl (MissingParameters name missing_params))
              else (dict_set name (macro\<lparr>m_usage_count := m_usage_count macro + 1\<rparr>) ms,
                    Inr (map (\<lambda>code. substitute_params code params) (m_sequence macro)))))"

record macro_doc =
  d_sequence :: "string list option"
  d_description :: "string option"
  d_parameters :: "string list option"

text \<open>
  The saved document is the dictionary handed to \<open>json.dump\<close>; \<open>json.load\<close> gives back
  a dictionary of the same texts and lists, whose entries may lack any of the keys.
\<close>

definition save_macros :: "macros \<Rightarrow> macro_doc dict" where
  "save_macros ms =
     map (\<lambda>(name, macro).
            (name, \<lparr>d_sequence = Some (m_sequence macro),
                    d_description = Some (m_description macro),
                    d_parameters = Some (m_parameters macro)\<rparr>)) ms"

fun load_macros :: "macros \<Rightarrow> macro_doc dict \<Rightarrow> macros \<times> macro_error option" where
  \<comment> \<open>the macros as the call leaves them, and the exception it re-raises, if any\<close>
  "load_macros ms [] = (ms, None)"
| "load_macros ms ((name, config) # data) =
     (case d_sequence config of
        None \<Rightarrow> (ms, Some (MissingKey ''sequence''))
      | Some sequence \<Rightarrow>
          (case define_macro ms name sequence
                  (case d_description config of None \<Rightarrow> [] | Some d \<Rightarrow> d)
                  (Some (case d_parameters config of None \<Rightarrow> [] | Some ps \<Rightarrow> ps)) of
             Inl e \<Rightarrow> (ms, Some e)
           | Inr ms' \<Rightarrow> load_macros ms' data))"

section \<open>The parallel handler (\<open>agent_squad_jump_integration.py\<close>)\<close>

text \<open>
  The threads are not modelled. What \<open>_parallel_handler\<close> sees of them is the iteration
  of \<open>as_completed\<close>: the futures that complete before the deadline, in the order in which
  they complete, each with the task it runs and what \<open>future.result()\<close> gives; when the
  iteration has passed them all and a submitted future is still not done, it raises
  \<open>TimeoutError\<close>.
\<close>

datatype outcome = Returned "pyval dict" | Raised pyexn

fun truthy :: "pyval \<Rightarrow> bool" where
  "truthy VNone = False"
| "truthy (VBool b) = b"
| "truthy (VInt n) = (n \<noteq> 0)"
| "truthy (VFloat s) = list_ex (\<lambda>c. is_decimal c \<and> c \<noteq> CHR ''0'') s"
| "truthy (VStr s) = (s \<noteq> [])"
| "truthy (VDatetime s) = True"
| "truthy (VList xs) = (xs \<noteq> [])"
| "truthy (VDict d) = (d \<noteq> [])"

definition get_truthy :: "pyval dict \<Rightarrow> string \<Rightarrow> bool" where
  \<comment> \<open>the truth value of \<open>d.get(k)\<close>\<close>
  "get_truthy d k = (case dict_get d k of None \<Rightarrow> False | Some v \<Rightarrow> truthy v)"

fun collect :: "bool \<Rightarrow> (string \<times> outcome) list \<Rightarrow> pyval dict \<Rightarrow> pyval dict \<times> bool \<times> bool" where
  \<comment> \<open>the loop over \<open>as_completed\<close>: \<open>results\<close>, \<open>failed\<close>, and whether the loop passed
      every completed future (it did not leave by \<open>break\<close>)\<close>
  "collect fail_fast [] results = (results, False, True)"
| "collect fail_fast ((task, Returned result) # completed) results =
     (if fail_fast \<and> get_truthy result ''error''
      then (dict_set task (VDict result) results, True, False)
      else collect fail_fast completed (dict_set task (VDict result) results))"
| "collect fail_fast ((task, Raised e) # completed) results =
     (if fail_fast
      then (dict_set task (VDict [(''error'', VBool True), (''message'', VStr (str_exn e))])
              results, True, False)
      else collect fail_fast completed
             (dict_set task (VDict [(''error'', VBool True), (''message'', VStr (str_exn e))])
                results))"

definition task_list_of :: "string \<Rightarrow> string list" where
  "task_list_of tasks = map strip (filter (\<lambda>t. strip t \<noteq> []) (split CHR '';'' tasks))"

definition timed_out :: "int \<Rightarrow> pyval" where
  \<comment> \<open>the value returned by the \<open>except concurrent.futures.TimeoutError\<close> clause\<close>
  "timed_out timeout =
     VDict [(''error'', VBool True),
            (''message'', VStr (''Parallel execution timed out after '' @ str_int timeout
                                @ '' seconds''))]"

definition parallel_handler :: "string \<Rightarrow> int \<Rightarrow> bool \<Rightarrow> (string \<times> outcome) list \<Rightarrow> pyval" where
  \<comment> \<open>\<open>_parallel_handler\<close>, given the completions before the deadline\<close>
  "parallel_handler tasks timeout fail_fast completed =
     (let task_list = task_list_of tasks in
      if task_list = []
      then VDict [(''error'', VBool True),
                  (''message'', VStr ''No tasks provided for parallel execution'')]
      else (case collect fail_fast completed [] of
              (results, failed, passed_all) \<Rightarrow>
                if passed_all \<and> length completed < length task_list then timed_out timeout
                else VDict [(''type'', VStr ''parallel_execution''),
                            (''tasks'', VList (map VStr task_list)),
                            (''results'', VDict results),
                            (''completed'', VInt (int (length results))),
                            (''total'', VInt (int (length task_list))),
                            (''failed'', VBool failed),
                            (''message'',
                             VStr (''Executed '' @ str_int (int (length results)) @ ''/''
                                   @ str_int (int (length task_list))
                                   @ '' tasks in parallel''))]))"

section \<open>The parser of \<open>enhanced_jump_codes.py\<close>\<close>

record eparsed =
  e_name :: string
  e_params :: "string dict"
  e_raw :: string

definition enhanced_param :: "string \<Rightarrow> string dict \<Rightarrow> string dict" where
  "enhanced_param param params =
     (if CHR ''='' \<in> set param
      then dict_set (strip (fst (split1 CHR ''='' param))) (strip (snd (split1 CHR ''='' param)))
             params
      else dict_set ''value'' (strip param) params)"

definition enhanced_parse_jump_code :: "string \<Rightarrow> pyexn + eparsed" where
  \<comment> \<open>\<open>EnhancedJumpCodeProcessor.parse_jump_code\<close>; the pattern \<open>@(\w+)(?::(.+))?\<close> is
      matched at the start of the text and need not reach its end\<close>
  "enhanced_parse_jump_code code =
     (if \<not> prefix ''@'' code
      then Inl (PyExn ValueError (''Jump code must start with @: '' @ code))
      else (let name = takeWhile is_word (drop 1 code);
                rest = dropWhile is_word (drop 1 code)
            in if name = []
               then Inl (PyExn ValueError (''Invalid jump code format: '' @ code))
               else (let params_str =
                           (case rest of
                              [] \<Rightarrow> []
                            | c # ps \<Rightarrow> if c = CHR '':''
                                        then takeWhile (\<lambda>x. x \<noteq> newline) ps else [])
                     in Inr \<lparr>e_name = name,
                             e_params = (if params_str \<noteq> []
                                         then foldl (\<lambda>params param. enhanced_param param params)
                                                [] (split CHR '','' params_str)
                                         else []),
                             e_raw = code\<rparr>)))"

section \<open>Handlers and registries used in the examples\<close>

definition empty_registry :: registry where
  "empty_registry = \<lparr>codes = [], aliases = []\<rparr>"

definition returning :: "pyval \<Rightarrow> handler" where
  \<comment> \<open>a handler that returns \<open>v\<close>\<close>
  "returning v = (\<lambda>ctx params. (ctx, Inr v))"

definition raising :: "string \<Rightarrow> handler" where
  \<comment> \<open>a handler that does \<open>raise Exception(msg)\<close>\<close>
  "raising msg = (\<lambda>ctx params. (ctx, Inl (PyExn Exception msg)))"

definition plain_code :: "string \<Rightarrow> handler \<Rightarrow> string list \<Rightarrow> JumpCode" where
  \<comment> \<open>\<open>JumpCode(code=code, description='', handler=h, parameters={}, aliases=als)\<close>\<close>
  "plain_code code h als =
     \<lparr>jc_code = code, jc_description = [], jc_handler = h, jc_parameters = [],
      jc_aliases = als, jc_context_required = []\<rparr>"

fun register_all :: "registry \<Rightarrow> JumpCode list \<Rightarrow> pyexn + registry" where
  \<comment> \<open>calls of \<open>register\<close> one after another; the first exception ends them\<close>
  "register_all reg [] = Inr reg"
| "register_all reg (jc # jcs) =
     (case register reg jc of
        Inl e \<Rightarrow> Inl e
      | Inr reg' \<Rightarrow> register_all reg' jcs)"

definition example_registry :: registry where
  \<comment> \<open>the registry after registering \<open>ok\<close> (alias \<open>o\<close>), \<open>boom\<close> and \<open>relay\<close>\<close>
  "example_registry =
     \<lparr>codes = [(''ok'', plain_code ''ok'' (returning (VDict [(''type'', VStr ''ok'')])) [''o'']),
               (''boom'', plain_code ''boom'' (raising ''boom'') []),
               (''relay'', plain_code ''relay'' (raising ''Unknown jump code: zzz'') [])],
      aliases = [(''o'', ''ok'')]\<rparr>"

definition restart_registry :: registry where
  \<comment> \<open>the registry after registering \<open>restart\<close>, whose result has the key
      \<open>sequence_start\<close>\<close>
  "restart_registry =
     \<lparr>codes = [(''restart'',
                plain_code ''restart''
                  (returning (VDict [(''sequence_start'', VStr ''now'')])) [])],
      aliases = []\<rparr>"

definition numbered_record :: "nat \<Rightarrow> sequence_record" where
  \<comment> \<open>the record of a run of one code, named by a number\<close>
  "numbered_record n =
     \<lparr>sr_sequence = [digits_of_nat n], sr_results = [], sr_completed = True,
      sr_success_rate = 0\<rparr>"

definition priced_macros :: macros where
  \<comment> \<open>a macro of two templates that declares \<open>r\<close>, also uses \<open>g\<close>, and has a \<open>$\<close> that
      starts no placeholder\<close>
  "priced_macros =
     [(''m'', \<lparr>m_sequence = [''@x:price=$5,role=${r},goal=${g}'', ''@status''],
               m_description = [], m_parameters = [''r''], m_usage_count = 0\<rparr>)]"

definition alpha_code :: JumpCode where
  \<comment> \<open>a code with the aliases \<open>x\<close> and \<open>z\<close>\<close>
  "alpha_code = plain_code ''alpha'' (raising ''a'') [''x'', ''z'']"

definition beta_code :: JumpCode where
  \<comment> \<open>a code with the aliases \<open>x\<close> and \<open>y\<close>\<close>
  "beta_code = plain_code ''beta'' (raising ''b'') [''x'', ''y'']"

definition used_macros :: macros where
  \<comment> \<open>two macros that have been expanded before\<close>
  "used_macros =
     [(''m'', \<lparr>m_sequence = [''@x:role=${r}''], m_description = ''one step'',
               m_parameters = [''r''], m_usage_count = 3\<rparr>),
      (''debug_all'', \<lparr>m_sequence = [''@debug:agent=all'', ''@status''],
               m_description = ''Enable full debugging and show status'',
               m_parameters = [], m_usage_count = 1\<rparr>)]"

section \<open>The coercion order and the command pattern, stated apart from the code\<close>

text \<open>
  The rule of the specification for one value, first match first: \<open>true\<close> and \<open>false\<close>
  in any case are booleans; a text of decimal digits is an integer; decimal digits with
  exactly one point are a float; every other text stays a string.
\<close>

definition coerce_by_spec :: "string \<Rightarrow> pyval" where
  "coerce_by_spec v =
     (if lower v = ''true'' then VBool True
      else if lower v = ''false'' then VBool False
      else if v \<noteq> [] \<and> list_all is_decimal v then VInt (int_of_digits v)
      else if count_list v CHR ''.'' = 1 \<and> list_all (\<lambda>c. is_decimal c \<or> c = CHR ''.'') v
              \<and> list_ex is_decimal v
           then VFloat v
      else VStr v)"

text \<open>
  The texts the pattern \<open>^(\w+)(?::(.+))?$\<close> matches, said without the matcher: word
  characters, then nothing, or a colon and a parameter text of at least one character on
  one line; a newline may end the text.
\<close>

definition command_pattern :: "string \<Rightarrow> bool" where
  "command_pattern t =
     (\<exists>name tail. t = name @ tail \<and> name \<noteq> [] \<and> list_all is_word name
        \<and> (tail = [] \<or> tail = [newline]
            \<or> (\<exists>body. body \<noteq> [] \<and> newline \<notin> set body
                  \<and> (tail = CHR '':'' # body \<or> tail = CHR '':'' # body @ [newline]))))"

section \<open>Rules for evaluating the examples\<close>

lemmas char_class_defs =
  cp_def newline_def is_decimal_def is_digit_def is_space_def is_ascii_letter_def is_word_def
  char_lower_def

lemmas parser_defs =
  parse_jump_code_def remove_sigil_def match_code_def parse_param_def coerce_value_def
  py_int_def int_max_str_digits_def py_float_def int_of_digits_def repr_plain_def lower_def isdigit_def strip_def
  split1_def replace_first_def

lemmas registry_defs =
  execute_def resolve_call_def resolve_alias_def call_handler_def validate_context_def
  dict_get_def dict_has_def dict_update_def Let_def

lemmas example_defs =
  example_registry_def empty_registry_def plain_code_def returning_def raising_def

lemmas sequence_defs =
  execute_sequence_def elapsed_def new_sequential_def add_to_memory_def slice_from_def
  step_context_def
  step_ok_def step_failed_def should_abort_sequence_def critical_errors_def protected_keys_def
  step_value_def

text \<open>The examples are states the code reaches through \<open>register\<close> and \<open>define_macro\<close>.\<close>

lemma example_registry_registered:
  "register_all empty_registry
     [plain_code ''ok'' (returning (VDict [(''type'', VStr ''ok'')])) [''o''],
      plain_code ''boom'' (raising ''boom'') [],
      plain_code ''relay'' (raising ''Unknown jump code: zzz'') []]
   = Inr example_registry"
  by (simp add: register_def valid_identifier_def char_class_defs example_defs)

lemma priced_macros_defined:
  "define_macro [] ''m'' [''@x:price=$5,role=${r},goal=${g}'', ''@status''] [] (Some [''r''])
     = Inr priced_macros"
  by (simp add: define_macro_def valid_identifier_def char_class_defs priced_macros_def)

section \<open>Dictionaries\<close>

lemma map_of_dict_set: "map_of (dict_set k v d) k' = (if k' = k then Some v else map_of d k')"
  by (induction d) auto

lemma map_of_dict_del: "map_of (dict_del k d) k' = (if k' = k then None else map_of d k')"
  by (induction d) (auto simp: dict_del_def)

lemma dict_get_dict_set: "dict_get (dict_set k v d) k' = (if k' = k then Some v else dict_get d k')"
  by (simp add: dict_get_def map_of_dict_set)

lemma dict_get_dict_del: "dict_get (dict_del k d) k' = (if k' = k then None else dict_get d k')"
  by (simp add: dict_get_def map_of_dict_del)

section \<open>Protected keys of the shared context\<close>

lemma merge_fold_protected:
  "k \<in> set protected_keys \<Longrightarrow>
   dict_get (foldl (\<lambda>c p. if fst p \<notin> set protected_keys then dict_set (fst p) (snd p) c else c)
               ctx d) k = dict_get ctx k"
proof (induction d arbitrary: ctx)
  case Nil
  then show ?case by simp
next
  case (Cons p d)
  then show ?case by (auto simp: dict_get_dict_set)
qed

text \<open>
  Claim C7. In a sequential run, merging the dictionary a step returned into the shared
  context leaves the entries of the protected keys \<open>sequence_id\<close>, \<open>sequence_position\<close>
  and \<open>previous_results\<close> as they were, whatever keys and values the result holds (and
  a result that is not a dictionary is not merged at all).
\<close>

theorem merge_result_keeps_protected_keys:
  "dict_get (merge_result ctx payload) ''sequence_id'' = dict_get ctx ''sequence_id''
   \<and> dict_get (merge_result ctx payload) ''sequence_position'' = dict_get ctx ''sequence_position''
   \<and> dict_get (merge_result ctx payload) ''previous_results'' = dict_get ctx ''previous_results''"
proof -
  have "''sequence_id'' \<in> set protected_keys" "''sequence_position'' \<in> set protected_keys"
    "''previous_results'' \<in> set protected_keys"
    by (simp_all add: protected_keys_def)
  then show ?thesis
    by (cases payload) (simp_all add: merge_fold_protected)
qed

section \<open>Aliases across \<open>register\<close> and \<open>unregister\<close>\<close>

lemma aliases_after_register:
  "dict_get (foldl (\<lambda>als alias. dict_set alias c als) als xs) a
     = (if a \<in> set xs then Some c else dict_get als a)"
  by (induction xs arbitrary: als) (auto simp: dict_get_dict_set)

lemma dict_has_iff: "dict_has d k \<longleftrightarrow> dict_get d k \<noteq> None"
  by (simp add: dict_has_def dict_get_def)

lemma aliases_after_unregister:
  "dict_get (foldl (\<lambda>als alias. if dict_has als alias then dict_del alias als else als) als xs) a
     = (if a \<in> set xs then None else dict_get als a)"
proof (induction xs arbitrary: als)
  case Nil
  then show ?case by simp
next
  case (Cons x xs)
  then show ?case
    by (auto simp: dict_get_dict_del dict_has_iff)
qed

lemma filter_absent_key:
  "\<not> dict_has als x \<Longrightarrow> filter (\<lambda>p. fst p \<noteq> x) als = als"
  by (induction als) (auto simp: dict_has_def)

lemma aliases_removed_filter:
  "foldl (\<lambda>als alias. if dict_has als alias then dict_del alias als else als) als xs
     = filter (\<lambda>p. fst p \<notin> set xs) als"
proof (induction xs arbitrary: als)
  case Nil
  then show ?case by simp
next
  case (Cons x xs)
  have "(if dict_has als x then dict_del x als else als) = filter (\<lambda>p. fst p \<noteq> x) als"
    by (simp add: dict_del_def filter_absent_key)
  then show ?case
    by (simp add: Cons.IH conj_commute)
qed

lemma unregister_present:
  assumes "dict_get (codes reg) c = Some jc"
  shows "unregister reg c
           = (\<lparr>codes = dict_del c (codes reg),
               aliases = filter (\<lambda>p. fst p \<notin> set (jc_aliases jc)) (aliases reg)\<rparr>, True)"
  using assms by (simp add: unregister_def aliases_removed_filter)

lemma registered_twice:
  assumes "register reg0 jcA = Inr reg1"
    and "register reg1 jcB = Inr reg2"
    and "jc_code jcA \<noteq> jc_code jcB"
    and "a \<in> set (jc_aliases jcB)"
  shows "dict_get (aliases reg2) a = Some (jc_code jcB)"
    and "dict_get (codes reg2) (jc_code jcA) = Some jcA"
    and "dict_get (codes reg2) (jc_code jcB) = Some jcB"
proof -
  from assms(1) have r1: "dict_get (codes reg1) (jc_code jcA) = Some jcA"
    by (auto simp: register_def dict_get_dict_set split: if_splits)
  from assms(2) have c2: "codes reg2 = dict_set (jc_code jcB) jcB (codes reg1)"
    and a2: "aliases reg2 = foldl (\<lambda>als alias. dict_set alias (jc_code jcB) als)
                              (aliases reg1) (jc_aliases jcB)"
    by (auto simp: register_def split: if_splits)
  show "dict_get (aliases reg2) a = Some (jc_code jcB)"
    using assms(4) by (simp add: a2 aliases_after_register)
  show "dict_get (codes reg2) (jc_code jcA) = Some jcA"
    using r1 assms(3) by (simp add: c2 dict_get_dict_set)
  show "dict_get (codes reg2) (jc_code jcB) = Some jcB"
    by (simp add: c2 dict_get_dict_set)
qed

text \<open>
  Claim C10. Unregistering a code that is not registered changes nothing and reports
  \<open>False\<close>. Unregistering a registered code reports \<open>True\<close>, removes the code and no
  other code, and removes from the alias table every alias its descriptor lists and no
  other alias, whatever code each of these aliases is bound to at that moment. So when a
  later registration of another code \<open>B\<close> has bound an alias of \<open>A\<close> again, the alias
  resolves to \<open>B\<close>, and unregistering \<open>A\<close> deletes it all the same while \<open>B\<close> stays
  registered.
\<close>

theorem unregister_removes_listed_aliases:
  "(dict_get (codes reg) c = None \<longrightarrow> unregister reg c = (reg, False))
   \<and> (dict_get (codes reg) c = Some jc \<longrightarrow>
        unregister reg c
          = (\<lparr>codes = dict_del c (codes reg),
              aliases = filter (\<lambda>p. fst p \<notin> set (jc_aliases jc)) (aliases reg)\<rparr>, True)
        \<and> (\<forall>x. dict_get (aliases (fst (unregister reg c))) x
                  = (if x \<in> set (jc_aliases jc) then None else dict_get (aliases reg) x))
        \<and> (\<forall>y. dict_get (codes (fst (unregister reg c))) y
                  = (if y = c then None else dict_get (codes reg) y)))
   \<and> (register reg0 jcA = Inr reg1 \<and> register reg1 jcB = Inr reg2
        \<and> jc_code jcA \<noteq> jc_code jcB
        \<and> a \<in> set (jc_aliases jcA) \<and> a \<in> set (jc_aliases jcB) \<longrightarrow>
        dict_get (aliases reg2) a = Some (jc_code jcB)
        \<and> snd (unregister reg2 (jc_code jcA))
        \<and> dict_get (aliases (fst (unregister reg2 (jc_code jcA)))) a = None
        \<and> dict_get (codes (fst (unregister reg2 (jc_code jcA)))) (jc_code jcA) = None
        \<and> dict_get (codes (fst (unregister reg2 (jc_code jcA)))) (jc_code jcB) = Some jcB)"
proof (intro conjI impI)
  assume "dict_get (codes reg) c = None"
  then show "unregister reg c = (reg, False)"
    by (simp add: unregister_def)
next
  assume p: "dict_get (codes reg) c = Some jc"
  show "unregister reg c
          = (\<lparr>codes = dict_del c (codes reg),
              aliases = filter (\<lambda>p. fst p \<notin> set (jc_aliases jc)) (aliases reg)\<rparr>, True)"
    by (rule unregister_present [OF p])
  show "\<forall>x. dict_get (aliases (fst (unregister reg c))) x
                  = (if x \<in> set (jc_aliases jc) then None else dict_get (aliases reg) x)"
    using p by (simp add: unregister_def aliases_after_unregister)
  show "\<forall>y. dict_get (codes (fst (unregister reg c))) y
                  = (if y = c then None else dict_get (codes reg) y)"
    using p by (simp add: unregister_def dict_get_dict_del)
next
  assume s: "register reg0 jcA = Inr reg1 \<and> register reg1 jcB = Inr reg2
        \<and> jc_code jcA \<noteq> jc_code jcB
        \<and> a \<in> set (jc_aliases jcA) \<and> a \<in> set (jc_aliases jcB)"
  then have r: "register reg0 jcA = Inr reg1" "register reg1 jcB = Inr reg2"
    "jc_code jcA \<noteq> jc_code jcB" "a \<in> set (jc_aliases jcB)" and aA: "a \<in> set (jc_aliases jcA)"
    by simp_all
  note t = registered_twice [OF r]
  show "dict_get (aliases reg2) a = Some (jc_code jcB)"
    by (rule t(1))
  show "snd (unregister reg2 (jc_code jcA))"
    by (simp add: unregister_present [OF t(2)])
  show "dict_get (aliases (fst (unregister reg2 (jc_code jcA)))) a = None"
    using aA by (simp add: unregister_def t(2) aliases_after_unregister)
  show "dict_get (codes (fst (unregister reg2 (jc_code jcA)))) (jc_code jcA) = None"
    by (simp add: unregister_def t(2) dict_get_dict_del)
  show "dict_get (codes (fst (unregister reg2 (jc_code jcA)))) (jc_code jcB) = Some jcB"
    using r(3) by (simp add: unregister_def t(2) t(3) dict_get_dict_del)
qed

theorem unregister_removes_listed_aliases_witness:
  "register empty_registry alpha_code
     = Inr \<lparr>codes = [(''alpha'', alpha_code)], aliases = [(''x'', ''alpha''), (''z'', ''alpha'')]\<rparr>
   \<and> register \<lparr>codes = [(''alpha'', alpha_code)],
                aliases = [(''x'', ''alpha''), (''z'', ''alpha'')]\<rparr> beta_code
     = Inr \<lparr>codes = [(''alpha'', alpha_code), (''beta'', beta_code)],
            aliases = [(''x'', ''beta''), (''z'', ''alpha''), (''y'', ''beta'')]\<rparr>
   \<and> dict_get (aliases \<lparr>codes = [(''alpha'', alpha_code), (''beta'', beta_code)],
                  aliases = [(''x'', ''beta''), (''z'', ''alpha''), (''y'', ''beta'')]\<rparr>) ''x''
     = Some (jc_code beta_code)
   \<and> unregister \<lparr>codes = [(''alpha'', alpha_code), (''beta'', beta_code)],
                  aliases = [(''x'', ''beta''), (''z'', ''alpha''), (''y'', ''beta'')]\<rparr> ''alpha''
     = (\<lparr>codes = [(''beta'', beta_code)], aliases = [(''y'', ''beta'')]\<rparr>, True)
   \<and> unregister \<lparr>codes = [(''beta'', beta_code)], aliases = [(''y'', ''beta'')]\<rparr> ''alpha''
     = (\<lparr>codes = [(''beta'', beta_code)], aliases = [(''y'', ''beta'')]\<rparr>, False)"
proof -
  let ?r1 = "\<lparr>codes = [(''alpha'', alpha_code)], aliases = [(''x'', ''alpha''), (''z'', ''alpha'')]\<rparr>"
  let ?r2 = "\<lparr>codes = [(''alpha'', alpha_code), (''beta'', beta_code)],
            aliases = [(''x'', ''beta''), (''z'', ''alpha''), (''y'', ''beta'')]\<rparr>"
  let ?r3 = "\<lparr>codes = [(''beta'', beta_code)], aliases = [(''y'', ''beta'')]\<rparr>"
  have v: "valid_identifier ''alpha''" "valid_identifier ''beta''"
    by (simp_all add: valid_identifier_def char_class_defs)
  have r1: "register empty_registry alpha_code = Inr ?r1"
    using v by (simp add: register_def empty_registry_def alpha_code_def plain_code_def)
  have r2: "register ?r1 beta_code = Inr ?r2"
    using v by (simp add: register_def beta_code_def plain_code_def)
  have l2: "dict_get (codes ?r2) ''alpha'' = Some alpha_code"
    by (simp add: dict_get_def)
  have l3: "dict_get (codes ?r3) ''alpha'' = None"
    by (simp add: dict_get_def)
  note t = unregister_removes_listed_aliases
  from t [of ?r2 "''alpha''" alpha_code] l2
  have u2: "unregister ?r2 ''alpha'' = (?r3, True)"
    by (simp add: dict_del_def alpha_code_def plain_code_def)
  from t [of ?r3 "''alpha''"] l3
  have u3: "unregister ?r3 ''alpha'' = (?r3, False)"
    by simp
  have ne: "jc_code alpha_code \<noteq> jc_code beta_code"
    "''x'' \<in> set (jc_aliases alpha_code)" "''x'' \<in> set (jc_aliases beta_code)"
    by (simp_all add: alpha_code_def beta_code_def plain_code_def)
  from t [where ?reg0.0 = empty_registry and jcA = alpha_code and ?reg1.0 = ?r1
            and jcB = beta_code and ?reg2.0 = ?r2 and a = "''x''"] r1 r2 ne
  have b: "dict_get (aliases ?r2) ''x'' = Some (jc_code beta_code)"
    by blast
  from r1 r2 u2 u3 b show ?thesis by simp
qed


section \<open>The bounded memory of sequence records\<close>

lemma add_to_memory_fields:
  "max_memory_size (add_to_memory sq r) = max_memory_size sq"
  "sq_registry (add_to_memory sq r) = sq_registry sq"
  by (simp_all add: add_to_memory_def Let_def)

lemma add_to_memory_memory:
  assumes "0 < max_memory_size sq"
  shows "sequence_memory (add_to_memory sq r)
           = drop (Suc (length (sequence_memory sq)) - nat (max_memory_size sq))
               (sequence_memory sq @ [r])"
proof (cases "int (length (sequence_memory sq @ [r])) > max_memory_size sq")
  case True
  with assms have "nat (int (length (sequence_memory sq @ [r])) + - max_memory_size sq)
                     = Suc (length (sequence_memory sq)) - nat (max_memory_size sq)"
    by simp
  with True assms show ?thesis
    by (simp add: add_to_memory_def Let_def slice_from_def del: drop_append)
next
  case False
  then have "Suc (length (sequence_memory sq)) - nat (max_memory_size sq) = 0"
    by simp
  with False show ?thesis
    by (simp add: add_to_memory_def Let_def del: drop_append)
qed

lemma foldl_add_to_memory_fields:
  "max_memory_size (foldl add_to_memory sq rs) = max_memory_size sq"
  by (induction rs arbitrary: sq) (simp_all add: add_to_memory_fields)

lemma foldl_add_to_memory_memory:
  assumes "0 < max_memory_size sq"
    and "int (length (sequence_memory sq)) \<le> max_memory_size sq"
  shows "sequence_memory (foldl add_to_memory sq rs)
           = drop (length (sequence_memory sq @ rs) - nat (max_memory_size sq))
               (sequence_memory sq @ rs)"
  using assms
proof (induction rs rule: rev_induct)
  case Nil
  then show ?case by simp
next
  case (snoc r rs)
  let ?c = "nat (max_memory_size sq)"
  let ?all = "sequence_memory sq @ rs"
  from snoc have ih: "sequence_memory (foldl add_to_memory sq rs) = drop (length ?all - ?c) ?all"
    by simp
  have pos: "0 < max_memory_size (foldl add_to_memory sq rs)"
    using snoc.prems by (simp add: foldl_add_to_memory_fields)
  have "sequence_memory (foldl add_to_memory sq (rs @ [r]))
          = drop (Suc (length (drop (length ?all - ?c) ?all)) - ?c)
              (drop (length ?all - ?c) ?all @ [r])"
    using add_to_memory_memory [OF pos, of r]
    by (simp add: ih foldl_add_to_memory_fields)
  also have "\<dots> = drop (Suc (length ?all) - ?c) (?all @ [r])"
  proof (cases "length ?all \<le> ?c")
    case True
    then show ?thesis by simp
  next
    case False
    with snoc.prems have "Suc (length (drop (length ?all - ?c) ?all)) - ?c = 1"
      by simp
    moreover from False have "Suc (length ?all) - ?c = Suc (length ?all - ?c)"
      by simp
    moreover have "drop (length ?all - ?c) ?all @ [r] = drop (length ?all - ?c) (?all @ [r])"
      by simp
    ultimately show ?thesis
      by (simp only: drop_drop) simp
  qed
  finally show ?case by simp
qed

text \<open>
  Claim C8. Whatever records are appended by \<open>_add_to_memory\<close>, the memory never holds
  more than \<open>max_memory_size\<close> records (100 in every object the constructor builds): it
  holds the most recent ones in the order of their insertion, the oldest being dropped
  first, so that after capacity + 5 insertions into an empty memory exactly the last
  capacity records remain.
\<close>

theorem sequence_memory_bounded_fifo:
  assumes "0 < max_memory_size sq"
    and "int (length (sequence_memory sq)) \<le> max_memory_size sq"
  shows "int (length (sequence_memory (foldl add_to_memory sq rs))) \<le> max_memory_size sq
         \<and> sequence_memory (foldl add_to_memory sq rs)
             = drop (length (sequence_memory sq @ rs) - nat (max_memory_size sq))
                 (sequence_memory sq @ rs)
         \<and> (sequence_memory sq = [] \<and> int (length rs) = max_memory_size sq + 5
              \<longrightarrow> sequence_memory (foldl add_to_memory sq rs) = drop 5 rs
                  \<and> int (length (sequence_memory (foldl add_to_memory sq rs)))
                      = max_memory_size sq)"
proof -
  note m = foldl_add_to_memory_memory [OF assms, of rs]
  have "int (length (sequence_memory (foldl add_to_memory sq rs))) \<le> max_memory_size sq"
    using assms by (simp add: m)
  moreover have "sequence_memory (foldl add_to_memory sq rs) = drop 5 rs
                 \<and> int (length (sequence_memory (foldl add_to_memory sq rs)))
                      = max_memory_size sq"
    if "sequence_memory sq = []" and "int (length rs) = max_memory_size sq + 5"
  proof -
    from that assms have "length rs - nat (max_memory_size sq) = 5"
      by simp
    with that show ?thesis
      by (simp add: m)
  qed
  ultimately show ?thesis
    using m by blast
qed

theorem sequence_memory_bounded_fifo_witness:
  "sequence_memory (foldl add_to_memory (new_sequential empty_registry) (map numbered_record [0..<105]))
     = map numbered_record [5..<105]"
proof -
  have "(0::int) < max_memory_size (new_sequential empty_registry)"
    "int (length (sequence_memory (new_sequential empty_registry)))
       \<le> max_memory_size (new_sequential empty_registry)"
    by (simp_all add: new_sequential_def)
  from sequence_memory_bounded_fifo [OF this, of "map numbered_record [0..<105]"]
  show ?thesis
    by (simp add: new_sequential_def drop_map)
qed

section \<open>Exceptions of a handler\<close>

text \<open>
  Claim C1, as the code has it. When the command resolves to a handler and the handler
  raises, \<open>JumpCodeRegistry.execute\<close> does not return a failure result: its \<open>except\<close>
  clause logs and re-raises, so the same exception, with its message, leaves \<open>execute\<close>.
  It is the caller that turns it into a record: the loop of \<open>execute_sequence\<close> appends
  a step with \<open>success = False\<close> whose \<open>error\<close> is the text of the exception.
\<close>

theorem execute_reraises_handler_exception:
  assumes "resolve_call reg code_string ctx = Inr (jc, final_params)"
    and "\<not> dict_has final_params ''context''"
    and "jc_handler jc ctx final_params = (ctx', Inl e)"
  shows "execute reg code_string ctx = (ctx', Inl e)
         \<and> (ctx = step_context i results ctx0 \<longrightarrow>
              run_steps reg tot i [code_string] ctx0 results
                = (ctx', results @ [step_failed code_string e i])
              \<and> st_error (step_failed code_string e i) = Some (str_exn e))"
proof -
  from assms have ex: "execute reg code_string ctx = (ctx', Inl e)"
    by (simp add: execute_def call_handler_def)
  then show ?thesis
    by (auto simp: step_failed_def)
qed

text \<open>
  The claim as stated fails: a handler that raises \<open>Exception('boom')\<close> makes \<open>execute\<close>
  raise that exception.
\<close>

theorem handler_exception_leaves_execute:
  "execute example_registry ''@boom'' [] = ([], Inl (PyExn Exception ''boom''))"
  by (simp add: registry_defs parser_defs char_class_defs example_defs)

theorem execute_reraises_handler_exception_witness:
  "resolve_call example_registry ''@boom:x=1'' (step_context 0 [] [])
     = Inr (plain_code ''boom'' (raising ''boom'') [], [(''x'', VInt 1)])
   \<and> \<not> dict_has [(''x'', VInt 1)] ''context''
   \<and> execute example_registry ''@boom:x=1'' (step_context 0 [] [])
       = (step_context 0 [] [], Inl (PyExn Exception ''boom''))
   \<and> run_steps example_registry 1 0 [''@boom:x=1''] [] []
       = (step_context 0 [] [], [step_failed ''@boom:x=1'' (PyExn Exception ''boom'') 0])"
proof -
  have r: "resolve_call example_registry ''@boom:x=1'' (step_context 0 [] [])
     = Inr (plain_code ''boom'' (raising ''boom'') [], [(''x'', VInt 1)])"
    by (simp add: registry_defs parser_defs char_class_defs example_defs)
  have c: "\<not> dict_has [(''x'', VInt 1)] ''context''"
    by (simp add: dict_has_def)
  have h: "jc_handler (plain_code ''boom'' (raising ''boom'') []) (step_context 0 [] [])
             [(''x'', VInt 1)] = (step_context 0 [] [], Inl (PyExn Exception ''boom''))"
    by (simp add: plain_code_def raising_def)
  from execute_reraises_handler_exception [OF r c h, of 0 "[]" "[]" 1] r c show ?thesis
    by simp
qed


section \<open>The abort policy of a sequential run\<close>

lemma should_abort_iff:
  "should_abort_sequence e i n \<longleftrightarrow>
     str_contains ''Missing required context'' (str_exn e)
     \<or> str_contains ''Unknown jump code'' (str_exn e)
     \<or> str_contains ''Invalid jump code format'' (str_exn e)"
  by (simp add: should_abort_sequence_def critical_errors_def)

lemma str_contains_prefix: "prefix sub s \<Longrightarrow> str_contains sub s"
  by (cases s) simp_all

lemma str_contains_append: "str_contains sub (sub @ t)"
  by (rule str_contains_prefix) simp

lemma run_steps_failure:
  assumes "execute reg code (step_context i results ctx) = (ctx', Inl e)"
  shows "run_steps reg tot i (code # rest) ctx results =
           (if str_contains ''Missing required context'' (str_exn e)
               \<or> str_contains ''Unknown jump code'' (str_exn e)
               \<or> str_contains ''Invalid jump code format'' (str_exn e)
            then (ctx', results @ [step_failed code e i])
            else run_steps reg tot (Suc i) rest ctx' (results @ [step_failed code e i]))"
  using assms by (simp add: should_abort_iff)

lemma execute_malformed:
  assumes "match_code (remove_sigil code) = None"
  shows "execute reg code ctx
           = (ctx, Inl (PyExn ValueError (''Invalid jump code format: '' @ remove_sigil code)))"
  using assms by (simp add: execute_def resolve_call_def parse_jump_code_def)

lemma execute_unknown:
  assumes "parse_jump_code code = Inr p"
    and "dict_get (codes reg) (resolve_alias reg (p_code p)) = None"
  shows "execute reg code ctx
           = (ctx, Inl (PyExn ValueError
                          (''Unknown jump code: '' @ resolve_alias reg (p_code p))))"
  using assms by (simp add: execute_def resolve_call_def)

lemma execute_missing_context:
  assumes "parse_jump_code code = Inr p"
    and "dict_get (codes reg) (resolve_alias reg (p_code p)) = Some jc"
    and "filter (\<lambda>key. \<not> dict_has ctx key) (jc_context_required jc) \<noteq> []"
  shows "execute reg code ctx
           = (ctx, Inl (PyExn ValueError
                (''Missing required context: ''
                 @ join '', '' (filter (\<lambda>key. \<not> dict_has ctx key) (jc_context_required jc)))))"
proof -
  from assms(3) have "jc_context_required jc \<noteq> []"
    by auto
  with assms show ?thesis
    by (simp add: execute_def resolve_call_def validate_context_def)
qed

text \<open>
  Claim C2, as the code has it. After a failing step the run stops before the next step
  exactly when the text of the exception contains one of the three markers
  \<open>Missing required context\<close>, \<open>Unknown jump code\<close>, \<open>Invalid jump code format\<close>.
  The failures \<open>execute\<close> raises itself for a text that does not match the command
  pattern, for an unknown code and for missing context keys carry a marker, so they stop
  the run; the exception of a handler stops it when its text contains a marker and not
  otherwise.
\<close>

theorem sequence_aborts_on_marker:
  "(execute reg code (step_context i results ctx) = (ctx', Inl e) \<longrightarrow>
      run_steps reg tot i (code # rest) ctx results =
        (if str_contains ''Missing required context'' (str_exn e)
            \<or> str_contains ''Unknown jump code'' (str_exn e)
            \<or> str_contains ''Invalid jump code format'' (str_exn e)
         then (ctx', results @ [step_failed code e i])
         else run_steps reg tot (Suc i) rest ctx' (results @ [step_failed code e i])))
   \<and> (match_code (remove_sigil code) = None \<longrightarrow>
        run_steps reg tot i (code # rest) ctx results =
          (step_context i results ctx,
           results @ [step_failed code
              (PyExn ValueError (''Invalid jump code format: '' @ remove_sigil code)) i]))
   \<and> (parse_jump_code code = Inr p
        \<and> dict_get (codes reg) (resolve_alias reg (p_code p)) = None \<longrightarrow>
        run_steps reg tot i (code # rest) ctx results =
          (step_context i results ctx,
           results @ [step_failed code
              (PyExn ValueError (''Unknown jump code: '' @ resolve_alias reg (p_code p))) i]))
   \<and> (parse_jump_code code = Inr p
        \<and> dict_get (codes reg) (resolve_alias reg (p_code p)) = Some jc
        \<and> filter (\<lambda>key. \<not> dict_has (step_context i results ctx) key)
             (jc_context_required jc) \<noteq> [] \<longrightarrow>
        run_steps reg tot i (code # rest) ctx results =
          (step_context i results ctx,
           results @ [step_failed code
              (PyExn ValueError (''Missing required context: ''
                 @ join '', '' (filter (\<lambda>key. \<not> dict_has (step_context i results ctx) key)
                                  (jc_context_required jc)))) i]))"
proof (intro conjI impI)
  assume "execute reg code (step_context i results ctx) = (ctx', Inl e)"
  then show "run_steps reg tot i (code # rest) ctx results =
        (if str_contains ''Missing required context'' (str_exn e)
            \<or> str_contains ''Unknown jump code'' (str_exn e)
            \<or> str_contains ''Invalid jump code format'' (str_exn e)
         then (ctx', results @ [step_failed code e i])
         else run_steps reg tot (Suc i) rest ctx' (results @ [step_failed code e i]))"
    by (rule run_steps_failure)
next
  assume "match_code (remove_sigil code) = None"
  from run_steps_failure [OF execute_malformed [OF this]]
  show "run_steps reg tot i (code # rest) ctx results =
          (step_context i results ctx,
           results @ [step_failed code
              (PyExn ValueError (''Invalid jump code format: '' @ remove_sigil code)) i])"
    by (simp add: str_contains_append)
next
  assume "parse_jump_code code = Inr p
        \<and> dict_get (codes reg) (resolve_alias reg (p_code p)) = None"
  then have "execute reg code (step_context i results ctx)
           = (step_context i results ctx, Inl (PyExn ValueError
                          (''Unknown jump code: '' @ resolve_alias reg (p_code p))))"
    by (simp add: execute_unknown)
  from run_steps_failure [OF this]
  show "run_steps reg tot i (code # rest) ctx results =
          (step_context i results ctx,
           results @ [step_failed code
              (PyExn ValueError (''Unknown jump code: '' @ resolve_alias reg (p_code p))) i])"
    by (simp add: str_contains_append)
next
  assume a: "parse_jump_code code = Inr p
        \<and> dict_get (codes reg) (resolve_alias reg (p_code p)) = Some jc
        \<and> filter (\<lambda>key. \<not> dict_has (step_context i results ctx) key)
             (jc_context_required jc) \<noteq> []"
  have "execute reg code (step_context i results ctx)
           = (step_context i results ctx, Inl (PyExn ValueError
                (''Missing required context: ''
                 @ join '', '' (filter (\<lambda>key. \<not> dict_has (step_context i results ctx) key)
                                  (jc_context_required jc)))))"
    using a execute_missing_context [of code p reg jc "step_context i results ctx"] by blast
  from run_steps_failure [OF this]
  show "run_steps reg tot i (code # rest) ctx results =
          (step_context i results ctx,
           results @ [step_failed code
              (PyExn ValueError (''Missing required context: ''
                 @ join '', '' (filter (\<lambda>key. \<not> dict_has (step_context i results ctx) key)
                                  (jc_context_required jc)))) i])"
    by (simp add: str_contains_append)
qed

text \<open>
  The two runs of three steps the claim names: an unknown code at step 2 leaves two
  recorded steps and \<open>completed = False\<close>, a handler raising \<open>Exception('boom')\<close> at
  step 2 leaves three and \<open>completed = True\<close>.
\<close>

lemma unknown_step_stops_sequence:
  "snd (execute_sequence (new_sequential example_registry) sid start [''@ok'', ''@nope'', ''@o''])
     = Inr [step_ok ''@ok'' (VDict [(''type'', VStr ''ok'')]) 0,
            step_failed ''@nope'' (PyExn ValueError ''Unknown jump code: nope'') 1]
   \<and> map sr_completed (sequence_memory (fst (execute_sequence
        (new_sequential example_registry) sid start [''@ok'', ''@nope'', ''@o''])))
     = [False]"
  by (simp add: sequence_defs registry_defs parser_defs char_class_defs example_defs)

lemma handler_error_continues_sequence:
  "snd (execute_sequence (new_sequential example_registry) sid start [''@ok'', ''@boom'', ''@o''])
     = Inr [step_ok ''@ok'' (VDict [(''type'', VStr ''ok'')]) 0,
            step_failed ''@boom'' (PyExn Exception ''boom'') 1,
            step_ok ''@o'' (VDict [(''type'', VStr ''ok'')]) 2]
   \<and> map sr_completed (sequence_memory (fst (execute_sequence
        (new_sequential example_registry) sid start [''@ok'', ''@boom'', ''@o''])))
     = [True]"
  by (simp add: sequence_defs registry_defs parser_defs char_class_defs example_defs)

text \<open>
  The reading \<open>sequence_start\<close> is not among the protected keys: a step whose result has
  that key replaces it, the subtraction at the end of the run raises \<open>TypeError\<close>, and the
  run leaves no record.
\<close>

lemma overwritten_start_raises:
  "execute_sequence (new_sequential restart_registry) sid start [''@restart'']
     = (new_sequential restart_registry,
        Inl (PyExn TypeError
               (''unsupported operand type(s) for -: '' @ repr_plain ''datetime.datetime''
                @ '' and '' @ repr_plain ''str'')))"
  by (simp add: sequence_defs registry_defs parser_defs char_class_defs example_defs
        restart_registry_def type_name_def)

text \<open>
  The claim as stated fails: the error of a handler whose text contains a marker
  stops the run, here after two of three steps.
\<close>

theorem handler_error_with_marker_aborts:
  "snd (execute_sequence (new_sequential example_registry) ''s1'' ''t0''
          [''@ok'', ''@relay'', ''@o''])
     = Inr [step_ok ''@ok'' (VDict [(''type'', VStr ''ok'')]) 0,
            step_failed ''@relay'' (PyExn Exception ''Unknown jump code: zzz'') 1]
   \<and> map sr_completed (sequence_memory (fst (execute_sequence
        (new_sequential example_registry) ''s1'' ''t0''
          [''@ok'', ''@relay'', ''@o''])))
     = [False]"
  by (simp add: sequence_defs registry_defs parser_defs char_class_defs example_defs)

theorem sequence_aborts_on_marker_witness:
  "run_steps example_registry 3 1 [''@nope'', ''@o''] [] []
     = (step_context 1 [] [], [step_failed ''@nope'' (PyExn ValueError ''Unknown jump code: nope'') 1])
   \<and> run_steps example_registry 3 1 [''@boom'', ''@o''] [] []
     = run_steps example_registry 3 2 [''@o''] (step_context 1 [] [])
         [step_failed ''@boom'' (PyExn Exception ''boom'') 1]
   \<and> run_steps example_registry 3 1 [''@relay'', ''@o''] [] []
     = (step_context 1 [] [],
        [step_failed ''@relay'' (PyExn Exception ''Unknown jump code: zzz'') 1])"
proof -
  have p: "parse_jump_code ''@nope'' = Inr \<lparr>p_code = ''nope'', p_parameters = []\<rparr>"
    by (simp add: parser_defs char_class_defs)
  have u: "dict_get (codes example_registry)
             (resolve_alias example_registry (p_code \<lparr>p_code = ''nope'', p_parameters = []\<rparr>))
           = None"
    by (simp add: registry_defs example_defs)
  have b: "execute example_registry ''@boom'' (step_context 1 [] [])
             = (step_context 1 [] [], Inl (PyExn Exception ''boom''))"
    by (simp add: registry_defs parser_defs char_class_defs example_defs)
  have r: "execute example_registry ''@relay'' (step_context 1 [] [])
             = (step_context 1 [] [], Inl (PyExn Exception ''Unknown jump code: zzz''))"
    by (simp add: registry_defs parser_defs char_class_defs example_defs)
  note t = sequence_aborts_on_marker
  from t [of example_registry "''@nope''" 1 "[]" "[]" _ _ 3 "[''@o'']"
            "\<lparr>p_code = ''nope'', p_parameters = []\<rparr>"] p u
  have 1: "run_steps example_registry 3 1 [''@nope'', ''@o''] [] []
     = (step_context 1 [] [], [step_failed ''@nope'' (PyExn ValueError ''Unknown jump code: nope'') 1])"
    by (simp add: resolve_alias_def dict_get_def example_defs)
  from t [of example_registry "''@boom''" 1 "[]" "[]" "step_context 1 [] []"
            "PyExn Exception ''boom''" 3 "[''@o'']"] b
  have 2: "run_steps example_registry 3 1 [''@boom'', ''@o''] [] []
     = run_steps example_registry 3 2 [''@o''] (step_context 1 [] [])
         [step_failed ''@boom'' (PyExn Exception ''boom'') 1]"
    by (simp add: numeral_2_eq_2)
  from t [of example_registry "''@relay''" 1 "[]" "[]" "step_context 1 [] []"
            "PyExn Exception ''Unknown jump code: zzz''" 3 "[''@o'']"] r
  have 3: "run_steps example_registry 3 1 [''@relay'', ''@o''] [] []
     = (step_context 1 [] [],
        [step_failed ''@relay'' (PyExn Exception ''Unknown jump code: zzz'') 1])"
    by simp
  from 1 2 3 show ?thesis by simp
qed

section \<open>The deadline of the parallel handler\<close>

lemma collect_without_fail_fast:
  "snd (collect False completed results) = (False, True)"
  by (induction "False" completed results rule: collect.induct) simp_all

text \<open>
  Claim C5, as the code has it. When the deadline expires with a task still not
  completed (and the loop has not left by a fail-fast \<open>break\<close> before), \<open>as_completed\<close>
  raises \<open>TimeoutError\<close> and the handler returns the one error value of its \<open>except\<close>
  clause, \<open>Parallel execution timed out after N seconds\<close>: the outcomes collected from
  the completed tasks are dropped with \<open>results\<close>, and no task gets an outcome of its
  own. Without fail-fast this is so whenever fewer tasks completed than were submitted.
\<close>

theorem timeout_returns_one_error:
  "(collect fail_fast completed [] = (results, failed, True)
      \<and> length completed < length (task_list_of tasks)
    \<longrightarrow> parallel_handler tasks timeout fail_fast completed = timed_out timeout)
   \<and> (length completed < length (task_list_of tasks)
    \<longrightarrow> parallel_handler tasks timeout False completed = timed_out timeout)"
proof (intro conjI impI)
  assume a: "collect fail_fast completed [] = (results, failed, True)
             \<and> length completed < length (task_list_of tasks)"
  then have "task_list_of tasks \<noteq> []"
    by auto
  with a show "parallel_handler tasks timeout fail_fast completed = timed_out timeout"
    by (simp add: parallel_handler_def)
next
  assume a: "length completed < length (task_list_of tasks)"
  then have ne: "task_list_of tasks \<noteq> []"
    by auto
  obtain results' where "collect False completed [] = (results', False, True)"
    using collect_without_fail_fast [of completed "[]"] by (cases "collect False completed []") simp
  with a ne show "parallel_handler tasks timeout False completed = timed_out timeout"
    by (simp add: parallel_handler_def)
qed

text \<open>
  The claim as stated fails: of two tasks, one completes before the deadline; the value
  returned has neither its outcome nor a timeout outcome for the other.
\<close>

theorem timeout_drops_completed_outcome:
  "parallel_handler ''a:t1;b:t2'' 300 False
     [(''a:t1'', Returned [(''type'', VStr ''task_assigned''), (''agent'', VStr ''a'')])]
   = VDict [(''error'', VBool True),
            (''message'', VStr ''Parallel execution timed out after 300 seconds'')]"
  by code_simp

theorem timeout_returns_one_error_witness:
  "collect True [(''a:t1'', Returned [(''type'', VStr ''task_assigned'')])] []
     = ([(''a:t1'', VDict [(''type'', VStr ''task_assigned'')])], False, True)
   \<and> length [(''a:t1'', Returned [(''type'', VStr ''task_assigned'')])]
       < length (task_list_of ''a:t1;b:t2'')
   \<and> parallel_handler ''a:t1;b:t2'' 300 True
         [(''a:t1'', Returned [(''type'', VStr ''task_assigned'')])] = timed_out 300
   \<and> parallel_handler ''a:t1;b:t2'' 300 False
         [(''a:t1'', Returned [(''type'', VStr ''task_assigned'')])] = timed_out 300"
proof -
  have c: "collect True [(''a:t1'', Returned [(''type'', VStr ''task_assigned'')])] []
     = ([(''a:t1'', VDict [(''type'', VStr ''task_assigned'')])], False, True)"
    by (simp add: get_truthy_def dict_get_def)
  have l: "length [(''a:t1'', Returned [(''type'', VStr ''task_assigned'')])]
       < length (task_list_of ''a:t1;b:t2'')"
    by (simp add: task_list_of_def strip_def char_class_defs)
  from timeout_returns_one_error [of True "[(''a:t1'', Returned [(''type'', VStr ''task_assigned'')])]"
         "[(''a:t1'', VDict [(''type'', VStr ''task_assigned'')])]" False "''a:t1;b:t2''" 300] c l
  show ?thesis by simp
qed

section \<open>Coercion of parameter values\<close>

text \<open>
  On every value without a superscript digit, and no longer than the limit of \<open>int\<close>,
  the parser coerces as the specification says, and a token without \<open>=\<close> is a flag set
  to \<open>True\<close>.
\<close>

lemma point_not_digit: "\<not> is_digit CHR ''.''" "\<not> is_decimal CHR ''.''"
  by (simp_all add: is_digit_def is_decimal_def cp_def)

lemma list_all_remove1:
  assumes "\<not> P x"
  shows "list_all P (remove1 x v) \<longleftrightarrow> (\<forall>c\<in>set v. P c \<or> c = x) \<and> count_list v x \<le> 1"
  using assms
proof (induction v)
  case Nil
  then show ?case by simp
next
  case (Cons a v)
  show ?case
  proof (cases "a = x")
    case True
    have "list_all P v \<longleftrightarrow> (\<forall>c\<in>set v. P c \<or> c = x) \<and> count_list v x = 0"
      using Cons.prems by (auto simp: list_all_iff count_list_0_iff)
    with True show ?thesis by simp
  next
    case False
    with Cons show ?thesis by auto
  qed
qed

lemma remove1_empty_iff: "remove1 x v = [] \<longleftrightarrow> v = [] \<or> v = [x]"
  by (cases v) auto

lemma coerce_value_decimal:
  assumes "list_all (\<lambda>c. is_digit c \<longrightarrow> is_decimal c) v"
    and "length v \<le> int_max_str_digits"
  shows "coerce_value v = Inr (coerce_by_spec v)"
proof -
  from assms have dd: "\<And>c. c \<in> set v \<Longrightarrow> is_digit c \<longleftrightarrow> is_decimal c"
    by (auto simp: list_all_iff is_digit_def)
  then have a1: "list_all is_digit v \<longleftrightarrow> list_all is_decimal v"
    by (auto simp: list_all_iff)
  have a2: "list_all is_digit (remove1 CHR ''.'' v) \<longleftrightarrow> list_all is_decimal (remove1 CHR ''.'' v)"
    using dd by (auto simp: list_all_iff dest: notin_set_remove1)
  have a3: "list_all is_decimal (remove1 CHR ''.'' v)
              \<longleftrightarrow> (\<forall>c\<in>set v. is_decimal c \<or> c = CHR ''.'') \<and> count_list v CHR ''.'' \<le> 1"
    by (rule list_all_remove1) (rule point_not_digit)
  show ?thesis
  proof (cases "lower v = ''true'' \<or> lower v = ''false''")
    case True
    then show ?thesis by (auto simp: coerce_value_def coerce_by_spec_def)
  next
    case nb: False
    show ?thesis
    proof (cases "v \<noteq> [] \<and> list_all is_decimal v")
      case True
      then have tw: "takeWhile is_decimal v = v"
        by (simp add: takeWhile_eq_all_conv list_all_iff)
      from True nb assms(2) show ?thesis
        by (simp add: coerce_value_def coerce_by_spec_def isdigit_def a1 py_int_def Let_def tw)
    next
      case ni: False
      then have nd: "\<not> isdigit v" by (simp add: isdigit_def a1)
      have fl: "isdigit (replace_first CHR ''.'' v)
                  \<longleftrightarrow> count_list v CHR ''.'' = 1
                      \<and> list_all (\<lambda>c. is_decimal c \<or> c = CHR ''.'') v \<and> list_ex is_decimal v"
      proof
        assume l: "isdigit (replace_first CHR ''.'' v)"
        then have ne: "remove1 CHR ''.'' v \<noteq> []" and al: "list_all is_decimal (remove1 CHR ''.'' v)"
          by (simp_all add: isdigit_def replace_first_def a2)
        from al a3 have allc: "\<forall>c\<in>set v. is_decimal c \<or> c = CHR ''.''"
          and le: "count_list v CHR ''.'' \<le> 1" by simp_all
        have "CHR ''.'' \<in> set v"
        proof (rule ccontr)
          assume "CHR ''.'' \<notin> set v"
          with allc ne have "v \<noteq> [] \<and> list_all is_decimal v"
            by (auto simp: list_all_iff)
          with ni show False by simp
        qed
        then have "count_list v CHR ''.'' \<noteq> 0"
          by (simp add: count_list_0_iff)
        with le have c1: "count_list v CHR ''.'' = 1" by simp
        from ne obtain d where "d \<in> set (remove1 CHR ''.'' v)"
          by (cases "remove1 CHR ''.'' v") auto
        with al have "is_decimal d" "d \<in> set v"
          using set_remove1_subset [of "CHR ''.''" v] by (auto simp: list_all_iff)
        then have "list_ex is_decimal v"
          by (auto simp: list_ex_iff)
        with c1 allc show "count_list v CHR ''.'' = 1
                      \<and> list_all (\<lambda>c. is_decimal c \<or> c = CHR ''.'') v \<and> list_ex is_decimal v"
          by (simp add: list_all_iff)
      next
        assume r: "count_list v CHR ''.'' = 1
                      \<and> list_all (\<lambda>c. is_decimal c \<or> c = CHR ''.'') v \<and> list_ex is_decimal v"
        then have "(\<forall>c\<in>set v. is_decimal c \<or> c = CHR ''.'') \<and> count_list v CHR ''.'' \<le> 1"
          by (simp add: list_all_iff)
        with a3 have al: "list_all is_decimal (remove1 CHR ''.'' v)"
          by simp
        from r obtain d where "d \<in> set v" "is_decimal d"
          by (auto simp: list_ex_iff)
        then have "v \<noteq> []" "v \<noteq> [CHR ''.'']"
          using point_not_digit by auto
        then have "remove1 CHR ''.'' v \<noteq> []"
          by (simp add: remove1_empty_iff)
        with al show "isdigit (replace_first CHR ''.'' v)"
          by (simp add: isdigit_def replace_first_def a2)
      qed
      show ?thesis
      proof (cases "isdigit (replace_first CHR ''.'' v)")
        case True
        then have "list_all is_decimal (replace_first CHR ''.'' v)"
          by (simp add: isdigit_def replace_first_def a2)
        with True nb ni nd fl show ?thesis
          by (simp add: coerce_value_def coerce_by_spec_def py_float_def)
      next
        case False
        with nb ni nd fl show ?thesis
          by (simp add: coerce_value_def coerce_by_spec_def)
      qed
    qed
  qed
qed

lemma parse_examples:
  "parse_jump_code ''@status'' = Inr \<lparr>p_code = ''status'', p_parameters = []\<rparr>"
  "parse_jump_code ''@create_agent:role=dev,goal=write code''
     = Inr \<lparr>p_code = ''create_agent'',
            p_parameters = [(''role'', VStr ''dev''), (''goal'', VStr ''write code'')]\<rparr>"
  "parse_jump_code ''@x:flag=true,count=3,ratio=1.5,name=foo''
     = Inr \<lparr>p_code = ''x'',
            p_parameters = [(''flag'', VBool True), (''count'', VInt 3),
                            (''ratio'', VFloat ''1.5''), (''name'', VStr ''foo'')]\<rparr>"
  by (simp_all add: parser_defs char_class_defs)

lemma bare_token_is_flag:
  "CHR ''='' \<notin> set (strip tok) \<Longrightarrow>
   parse_param tok parameters = Inr (dict_set (strip tok) (VBool True) parameters)"
  by (simp add: parse_param_def)

text \<open>
  Claim C3 says that every value is coerced: a text of digits to an integer, anything
  else that is neither boolean nor float to a string. The code guards \<open>int(value)\<close> with
  \<open>value.isdigit()\<close>, which also holds for the superscript digits U+00B2, U+00B3 and
  U+00B9; \<open>int\<close> rejects them. For the value made of the one character U+00B2 the
  guard holds, \<open>int\<close> raises \<open>ValueError\<close>, and the whole parse of \<open>@x:n=\<close> followed by
  that character fails with it instead of yielding a parameter.
\<close>

theorem superscript_digit_raises:
  "isdigit [CHR 0xB2]
   \<and> coerce_value [CHR 0xB2]
       = Inl (PyExn ValueError
                (''invalid literal for int() with base 10: '' @ [CHR 0x27, CHR 0xB2, CHR 0x27]))
   \<and> parse_jump_code (''@x:n='' @ [CHR 0xB2])
       = Inl (PyExn ValueError
                (''invalid literal for int() with base 10: '' @ [CHR 0x27, CHR 0xB2, CHR 0x27]))"
  by code_simp

section \<open>Expansion of macros\<close>

lemma str_contains_Cons: "str_contains sub s \<Longrightarrow> str_contains sub (c # s)"
  by simp

lemma str_contains_append_left: "str_contains sub s \<Longrightarrow> str_contains sub (pre @ s)"
  by (induction pre) simp_all

lemma brace_not_word: "\<not> is_word CHR ''}''"
  by (simp add: char_class_defs)

lemma match_placeholder_Some:
  assumes "match_placeholder s = Some (k, rest)"
  shows "s = ''${'' @ k @ ''}'' @ rest \<and> k \<noteq> [] \<and> list_all is_word k"
proof -
  from assms have p: "prefix ''${'' s"
    and k: "k = takeWhile is_word (drop 2 s)" and kne: "k \<noteq> []"
    and b: "prefix ''}'' (dropWhile is_word (drop 2 s))"
    and r: "rest = drop 1 (dropWhile is_word (drop 2 s))"
    by (auto simp: match_placeholder_def Let_def split: if_splits)
  from p have s: "s = ''${'' @ drop 2 s"
    by (auto simp: prefix_def)
  from b have d: "dropWhile is_word (drop 2 s) = ''}'' @ rest"
    by (auto simp: prefix_def r)
  have "drop 2 s = k @ ''}'' @ rest"
    using takeWhile_dropWhile_id [of is_word "drop 2 s"] by (simp add: k d del: takeWhile_dropWhile_id)
  with s have "s = ''${'' @ k @ ''}'' @ rest"
    by simp
  moreover have "list_all is_word k"
    by (simp add: k list_all_iff) (meson set_takeWhileD)
  ultimately show ?thesis using kne by simp
qed

lemma match_placeholder_at:
  assumes "k \<noteq> []" and "list_all is_word k"
  shows "match_placeholder (''${'' @ k @ ''}'' @ post) = Some (k, post)"
proof -
  from assms(2) have w: "\<And>x. x \<in> set k \<Longrightarrow> is_word x"
    by (simp add: list_all_iff)
  have "takeWhile is_word (k @ CHR ''}'' # post) = k"
    using w brace_not_word by (simp add: takeWhile_append2)
  moreover have "dropWhile is_word (k @ CHR ''}'' # post) = CHR ''}'' # post"
    using w brace_not_word by (simp add: dropWhile_append2)
  ultimately show ?thesis
    using assms(1) by (simp add: match_placeholder_def)
qed

lemma substitute_params_literal:
  "CHR ''$'' \<notin> set pre \<Longrightarrow> substitute_params (pre @ s) params = pre @ substitute_params s params"
proof (induction pre)
  case Nil
  then show ?case by simp
next
  case (Cons c pre)
  then have "match_placeholder (c # pre @ s) = None"
    by (auto simp: match_placeholder_def)
  with Cons show ?case by simp
qed

lemma substitute_params_placeholder:
  assumes "k \<noteq> []" and "list_all is_word k"
  shows "substitute_params (''${'' @ k @ ''}'' @ post) params
           = (case dict_get params k of Some v \<Rightarrow> v | None \<Rightarrow> ''${'' @ k @ ''}'')
             @ substitute_params post params"
proof -
  have "match_placeholder (CHR ''$'' # CHR ''{'' # k @ CHR ''}'' # post) = Some (k, post)"
    using match_placeholder_at [OF assms, of post] by simp
  then show ?thesis by simp
qed

lemma substitute_params_absent:
  assumes "\<And>k. str_contains (''${'' @ k @ ''}'') code \<Longrightarrow> dict_get params k = None"
  shows "substitute_params code params = code"
  using assms
proof (induction code params rule: substitute_params.induct)
  case (1 params)
  then show ?case by simp
next
  case (2 c cs params)
  show ?case
  proof (cases "match_placeholder (c # cs)")
    case None
    have "substitute_params cs params = cs"
      using "2.prems" by (intro "2.IH"(1) [OF None]) simp
    with None show ?thesis by simp
  next
    case (Some a)
    obtain k rest where a: "a = (k, rest)" by (cases a)
    from match_placeholder_Some [OF Some [unfolded a]]
    have eq: "c # cs = ''${'' @ k @ ''}'' @ rest" by simp
    then have "str_contains (''${'' @ k @ ''}'') (c # cs)"
      by (intro str_contains_prefix) (simp add: prefix_def)
    then have none: "dict_get params k = None"
      by (rule "2.prems")
    have "substitute_params rest params = rest"
    proof (rule "2.IH"(2) [OF Some a [symmetric]])
      fix k'
      assume "str_contains (''${'' @ k' @ ''}'') rest"
      then have "str_contains (''${'' @ k' @ ''}'') ((''${'' @ k @ ''}'') @ rest)"
        by (rule str_contains_append_left)
      with eq show "dict_get params k' = None"
        by (intro "2.prems") simp
    qed
    with Some a none eq show ?thesis by simp
  qed
qed


lemma match_placeholder_None_iff:
  "match_placeholder s = None
     \<longleftrightarrow> \<not> (\<exists>k post. k \<noteq> [] \<and> list_all is_word k \<and> s = ''${'' @ k @ ''}'' @ post)"
proof
  assume n: "match_placeholder s = None"
  show "\<not> (\<exists>k post. k \<noteq> [] \<and> list_all is_word k \<and> s = ''${'' @ k @ ''}'' @ post)"
  proof
    assume "\<exists>k post. k \<noteq> [] \<and> list_all is_word k \<and> s = ''${'' @ k @ ''}'' @ post"
    then obtain k post where "k \<noteq> []" "list_all is_word k" "s = ''${'' @ k @ ''}'' @ post"
      by blast
    then have "match_placeholder s = Some (k, post)"
      using match_placeholder_at [of k post] by simp
    with n show False by simp
  qed
next
  assume a: "\<not> (\<exists>k post. k \<noteq> [] \<and> list_all is_word k \<and> s = ''${'' @ k @ ''}'' @ post)"
  show "match_placeholder s = None"
  proof (cases "match_placeholder s")
    case None
    then show ?thesis .
  next
    case (Some p)
    obtain k rest where "p = (k, rest)" by (cases p)
    with Some match_placeholder_Some [of s k rest] a show ?thesis
      by blast
  qed
qed

text \<open>
  Claim C6. For a defined macro, \<open>expand_macro\<close> fails with the error that lists every
  declared parameter absent from the given values, in the order of the declaration, and
  leaves the macros as they were: nothing is substituted and the usage count stays.
  Otherwise it returns each template substituted and counts the use. The substitution
  is fixed for every template by three equations: the empty text stays empty; a text
  that starts with a placeholder \<open>${k}\<close>, \<open>k\<close> one or more word characters, yields the
  value of \<open>k\<close> when the values have the key and the placeholder as it stands when
  they have not, followed by the substitution of the rest; and a text that does not
  start with a placeholder keeps its first character, a stray \<open>$\<close> included, followed
  by the substitution of the rest. So each placeholder with a present key is replaced,
  each with an absent key is left verbatim, and nothing raises.
\<close>

theorem expand_macro_substitutes_each_placeholder:
  "(dict_get ms name = Some macro
      \<and> filter (\<lambda>p. \<not> dict_has params p) (m_parameters macro) \<noteq> [] \<longrightarrow>
      expand_macro ms name (Some params)
        = (ms, Inl (MissingParameters name
                      (filter (\<lambda>p. \<not> dict_has params p) (m_parameters macro)))))
   \<and> (dict_get ms name = Some macro
      \<and> filter (\<lambda>p. \<not> dict_has params p) (m_parameters macro) = [] \<longrightarrow>
      expand_macro ms name (Some params)
        = (dict_set name (macro\<lparr>m_usage_count := m_usage_count macro + 1\<rparr>) ms,
           Inr (map (\<lambda>code. substitute_params code params) (m_sequence macro))))
   \<and> substitute_params [] params = []
   \<and> (k \<noteq> [] \<and> list_all is_word k \<longrightarrow>
        substitute_params (''${'' @ k @ ''}'' @ post) params
          = (case dict_get params k of Some v \<Rightarrow> v | None \<Rightarrow> ''${'' @ k @ ''}'')
            @ substitute_params post params)
   \<and> (\<not> (\<exists>k' post'. k' \<noteq> [] \<and> list_all is_word k' \<and> c # cs = ''${'' @ k' @ ''}'' @ post') \<longrightarrow>
        substitute_params (c # cs) params = c # substitute_params cs params)"
proof (intro conjI impI)
  assume "dict_get ms name = Some macro
      \<and> filter (\<lambda>p. \<not> dict_has params p) (m_parameters macro) \<noteq> []"
  then show "expand_macro ms name (Some params)
        = (ms, Inl (MissingParameters name
                      (filter (\<lambda>p. \<not> dict_has params p) (m_parameters macro))))"
    by (simp add: expand_macro_def)
next
  assume "dict_get ms name = Some macro
      \<and> filter (\<lambda>p. \<not> dict_has params p) (m_parameters macro) = []"
  then show "expand_macro ms name (Some params)
        = (dict_set name (macro\<lparr>m_usage_count := m_usage_count macro + 1\<rparr>) ms,
           Inr (map (\<lambda>code. substitute_params code params) (m_sequence macro)))"
    by (simp add: expand_macro_def)
next
  show "substitute_params [] params = []"
    by simp
next
  assume "k \<noteq> [] \<and> list_all is_word k"
  then show "substitute_params (''${'' @ k @ ''}'' @ post) params
          = (case dict_get params k of Some v \<Rightarrow> v | None \<Rightarrow> ''${'' @ k @ ''}'')
            @ substitute_params post params"
    by (intro substitute_params_placeholder) simp_all
next
  assume "\<not> (\<exists>k' post'. k' \<noteq> [] \<and> list_all is_word k' \<and> c # cs = ''${'' @ k' @ ''}'' @ post')"
  then have "match_placeholder (c # cs) = None"
    using match_placeholder_None_iff [of "c # cs"] by blast
  then show "substitute_params (c # cs) params = c # substitute_params cs params"
    by simp
qed

text \<open>A stray \<open>$\<close> before a placeholder does not stop the substitution.\<close>

lemma stray_dollar_example:
  "substitute_params ''@x:price=$5,role=${r},goal=${g}'' [(''r'', ''dev'')]
     = ''@x:price=$5,role=dev,goal=${g}''"
  by (simp add: match_placeholder_def char_class_defs dict_get_def)

theorem expand_macro_substitutes_each_placeholder_witness:
  "expand_macro priced_macros ''m'' (Some [])
     = (priced_macros, Inl (MissingParameters ''m'' [''r'']))
   \<and> snd (expand_macro priced_macros ''m'' (Some [(''r'', ''dev'')]))
       = Inr [''@x:price=$5,role=dev,goal=${g}'', ''@status'']
   \<and> substitute_params ''$5,role=${r}'' [(''r'', ''dev'')]
       = CHR ''$'' # substitute_params ''5,role=${r}'' [(''r'', ''dev'')]
   \<and> substitute_params ''${r}'' [(''r'', ''dev'')] = ''dev''
   \<and> substitute_params ''${g}'' [(''r'', ''dev'')] = ''${g}''"
proof -
  let ?m = "\<lparr>m_sequence = [''@x:price=$5,role=${r},goal=${g}'', ''@status''],
             m_description = [], m_parameters = [''r''], m_usage_count = 0\<rparr>"
  have look: "dict_get priced_macros ''m'' = Some ?m"
    by (simp add: priced_macros_def dict_get_def)
  note t = expand_macro_substitutes_each_placeholder
  have 1: "expand_macro priced_macros ''m'' (Some [])
             = (priced_macros, Inl (MissingParameters ''m'' [''r'']))"
    using t [of priced_macros "''m''" ?m "[]"] look by (simp add: dict_has_def)
  have s2: "substitute_params ''@status'' [(''r'', ''dev'')] = ''@status''"
    by (simp add: match_placeholder_def)
  have 2: "snd (expand_macro priced_macros ''m'' (Some [(''r'', ''dev'')]))
       = Inr [''@x:price=$5,role=dev,goal=${g}'', ''@status'']"
    using t [of priced_macros "''m''" ?m "[(''r'', ''dev'')]"] look stray_dollar_example s2
    by (simp add: dict_has_def)
  have n: "\<not> (\<exists>k' post'. k' \<noteq> [] \<and> list_all is_word k'
               \<and> CHR ''$'' # ''5,role=${r}'' = ''${'' @ k' @ ''}'' @ post')"
    by simp
  have 3: "substitute_params ''$5,role=${r}'' [(''r'', ''dev'')]
       = CHR ''$'' # substitute_params ''5,role=${r}'' [(''r'', ''dev'')]"
    using t [of _ _ _ "[(''r'', ''dev'')]" _ _ "CHR ''$''" "''5,role=${r}''"] n by simp
  have w: "''r'' \<noteq> [] \<and> list_all is_word ''r''" "''g'' \<noteq> [] \<and> list_all is_word ''g''"
    by (simp_all add: char_class_defs)
  have 4: "substitute_params ''${r}'' [(''r'', ''dev'')] = ''dev''"
    using t [of _ _ _ "[(''r'', ''dev'')]" "''r''" "[]"] w by (simp add: dict_get_def)
  have 5: "substitute_params ''${g}'' [(''r'', ''dev'')] = ''${g}''"
    using t [of _ _ _ "[(''r'', ''dev'')]" "''g''" "[]"] w by (simp add: dict_get_def)
  from 1 2 3 4 5 show ?thesis by simp
qed

section \<open>Saving and loading macros\<close>

lemma load_save_macros:
  assumes "\<forall>name\<in>set (map fst ms). valid_identifier name"
  shows "load_macros ms0 (save_macros ms)
           = (foldl (\<lambda>acc p. dict_set (fst p) ((snd p)\<lparr>m_usage_count := 0\<rparr>) acc) ms0 ms, None)"
  using assms
proof (induction ms arbitrary: ms0)
  case Nil
  then show ?case by (simp add: save_macros_def)
next
  case (Cons p ms)
  obtain name macro where p: "p = (name, macro)" by (cases p)
  from Cons.prems have v: "valid_identifier name"
    and rest: "\<forall>name\<in>set (map fst ms). valid_identifier name"
    by (simp_all add: p)
  have m: "\<lparr>m_sequence = m_sequence macro, m_description = m_description macro,
            m_parameters = m_parameters macro, m_usage_count = 0\<rparr>
           = macro\<lparr>m_usage_count := 0\<rparr>"
    by simp
  have "load_macros ms0 (save_macros (p # ms))
          = load_macros (dict_set name (macro\<lparr>m_usage_count := 0\<rparr>) ms0) (save_macros ms)"
    using v by (simp add: save_macros_def p define_macro_def m)
  with Cons.IH [OF rest] show ?case
    by (simp add: p)
qed

lemma dict_get_foldl_reset:
  assumes "distinct (map fst ms)"
  shows "dict_get (foldl (\<lambda>acc p. dict_set (fst p) ((snd p)\<lparr>m_usage_count := 0\<rparr>) acc) ms0 ms) name
           = (case dict_get ms name of
                Some macro \<Rightarrow> Some (macro\<lparr>m_usage_count := 0\<rparr>)
              | None \<Rightarrow> dict_get ms0 name)"
  using assms
proof (induction ms arbitrary: ms0)
  case Nil
  then show ?case by (simp add: dict_get_def)
next
  case (Cons p ms)
  obtain n macro where p: "p = (n, macro)" by (cases p)
  from Cons.prems have d: "distinct (map fst ms)" and nin: "n \<notin> fst ` set ms"
    by (simp_all add: p)
  from nin have none: "dict_get ms n = None"
    by (simp add: dict_get_def map_of_eq_None_iff)
  show ?case
    using Cons.IH [OF d, of "dict_set n (macro\<lparr>m_usage_count := 0\<rparr>) ms0"] none
    by (auto simp: p map_of_dict_set dict_get_def split: option.splits)
qed

text \<open>
  Claim C9. Saving the macros and loading the saved document, into any set of macros,
  raises nothing and gives every saved macro back under its name with the same templates,
  description and declared parameters, and with a usage count of zero whatever the count
  was when it was saved: the document has no field for it. Loaded into an empty set, the
  result is the saved macros in their order with their counts reset.
\<close>

theorem save_load_restores_macros:
  assumes "distinct (map fst ms)"
    and "\<forall>name\<in>set (map fst ms). valid_identifier name"
  shows "snd (load_macros ms0 (save_macros ms)) = None
         \<and> (\<forall>name macro. dict_get ms name = Some macro \<longrightarrow>
               dict_get (fst (load_macros ms0 (save_macros ms))) name
                 = Some \<lparr>m_sequence = m_sequence macro, m_description = m_description macro,
                         m_parameters = m_parameters macro, m_usage_count = 0\<rparr>)
         \<and> fst (load_macros [] (save_macros ms))
             = map (\<lambda>p. (fst p, (snd p)\<lparr>m_usage_count := 0\<rparr>)) ms"
proof -
  note l = load_save_macros [OF assms(2)]
  have a: "snd (load_macros ms0 (save_macros ms)) = None"
    by (simp add: l)
  have b: "dict_get (fst (load_macros ms0 (save_macros ms))) name
                 = Some \<lparr>m_sequence = m_sequence macro, m_description = m_description macro,
                         m_parameters = m_parameters macro, m_usage_count = 0\<rparr>"
    if "dict_get ms name = Some macro" for name macro
    using that by (simp add: l dict_get_foldl_reset [OF assms(1)])
  have gen: "foldl (\<lambda>acc p. dict_set (fst p) ((snd p)\<lparr>m_usage_count := 0\<rparr>) acc) acc0 xs
           = acc0 @ map (\<lambda>p. (fst p, (snd p)\<lparr>m_usage_count := 0\<rparr>)) xs"
    if "distinct (map fst acc0 @ map fst xs)" for acc0 :: macros and xs :: macros
    using that
  proof (induction xs arbitrary: acc0)
    case Nil
    then show ?case by simp
  next
    case (Cons x xs)
    have app: "dict_set k v d = d @ [(k, v)]" if "k \<notin> fst ` set d" for k and v :: macro and d
      using that by (induction d) auto
    from Cons.prems have "fst x \<notin> fst ` set acc0"
      by auto
    then have "dict_set (fst x) ((snd x)\<lparr>m_usage_count := 0\<rparr>) acc0
                 = acc0 @ [(fst x, (snd x)\<lparr>m_usage_count := 0\<rparr>)]"
      by (rule app)
    moreover have "distinct (map fst (acc0 @ [(fst x, (snd x)\<lparr>m_usage_count := 0\<rparr>)]) @ map fst xs)"
      using Cons.prems by auto
    ultimately show ?case
      using Cons.IH [of "acc0 @ [(fst x, (snd x)\<lparr>m_usage_count := 0\<rparr>)]"] by simp
  qed
  have c: "fst (load_macros [] (save_macros ms))
             = map (\<lambda>p. (fst p, (snd p)\<lparr>m_usage_count := 0\<rparr>)) ms"
    using gen [of "[]" ms] assms(1) by (simp add: load_save_macros [OF assms(2)])
  from a b c show ?thesis by blast
qed

theorem save_load_restores_macros_witness:
  "distinct (map fst used_macros)
   \<and> list_all valid_identifier (map fst used_macros)
   \<and> load_macros [] (save_macros used_macros)
       = ([(''m'', \<lparr>m_sequence = [''@x:role=${r}''], m_description = ''one step'',
                    m_parameters = [''r''], m_usage_count = 0\<rparr>),
           (''debug_all'', \<lparr>m_sequence = [''@debug:agent=all'', ''@status''],
                    m_description = ''Enable full debugging and show status'',
                    m_parameters = [], m_usage_count = 0\<rparr>)], None)"
proof -
  have d: "distinct (map fst used_macros)"
    by (simp add: used_macros_def)
  have v: "\<forall>name\<in>set (map fst used_macros). valid_identifier name"
    by (simp add: used_macros_def valid_identifier_def char_class_defs)
  from save_load_restores_macros [OF d v, of "[]"] d v show ?thesis
    by (cases "load_macros [] (save_macros used_macros)") (simp add: used_macros_def list_all_iff)
qed

section \<open>Texts the parsers reject\<close>

lemma not_word_chars: "\<not> is_word newline" "\<not> is_word CHR '':''"
  by (simp_all add: char_class_defs)

lemma split_at_non_word:
  assumes "list_all is_word name" and "tail = [] \<or> \<not> is_word (hd tail)"
  shows "takeWhile is_word (name @ tail) = name" and "dropWhile is_word (name @ tail) = tail"
proof -
  from assms(1) have w: "\<And>x. x \<in> set name \<Longrightarrow> is_word x"
    by (simp add: list_all_iff)
  from assms(2) have "takeWhile is_word tail = []" and "dropWhile is_word tail = tail"
    by (cases tail; simp)+
  then show "takeWhile is_word (name @ tail) = name" and "dropWhile is_word (name @ tail) = tail"
    using w by (simp_all add: takeWhile_append2 dropWhile_append2)
qed

lemma split_at_newline:
  assumes "newline \<notin> set body"
  shows "takeWhile (\<lambda>x. x \<noteq> newline) (body @ rest) = body @ takeWhile (\<lambda>x. x \<noteq> newline) rest"
    and "dropWhile (\<lambda>x. x \<noteq> newline) (body @ rest) = dropWhile (\<lambda>x. x \<noteq> newline) rest"
proof -
  from assms have "\<And>x. x \<in> set body \<Longrightarrow> x \<noteq> newline"
    by auto
  then show "takeWhile (\<lambda>x. x \<noteq> newline) (body @ rest) = body @ takeWhile (\<lambda>x. x \<noteq> newline) rest"
    and "dropWhile (\<lambda>x. x \<noteq> newline) (body @ rest) = dropWhile (\<lambda>x. x \<noteq> newline) rest"
    by (simp_all add: takeWhile_append2 dropWhile_append2)
qed

lemma match_code_pattern: "match_code t \<noteq> None \<longleftrightarrow> command_pattern t"
proof
  assume m: "match_code t \<noteq> None"
  let ?name = "takeWhile is_word t" and ?rest = "dropWhile is_word t"
  have t: "t = ?name @ ?rest" by simp
  have w: "list_all is_word ?name"
    by (simp add: list_all_iff) (meson set_takeWhileD)
  from m have ne: "?name \<noteq> []"
    by (auto simp: match_code_def Let_def split: if_splits)
  show "command_pattern t"
  proof (cases "?rest = [] \<or> ?rest = [newline]")
    case True
    with t w ne show ?thesis
      unfolding command_pattern_def by blast
  next
    case False
    then obtain c ps where r: "?rest = c # ps"
      by (cases ?rest) auto
    let ?body = "takeWhile (\<lambda>x. x \<noteq> newline) ps" and ?tail = "dropWhile (\<lambda>x. x \<noteq> newline) ps"
    from m False r ne have c: "c = CHR '':''" and b: "?body \<noteq> []"
      and tl: "?tail = [] \<or> ?tail = [newline]"
      by (auto simp: match_code_def Let_def split: if_splits)
    have nb: "newline \<notin> set ?body"
      using set_takeWhileD [of newline "\<lambda>x. x \<noteq> newline" ps] by auto
    have "ps = ?body @ ?tail" by simp
    with tl have "ps = ?body \<or> ps = ?body @ [newline]"
      by (metis append_Nil2)
    with r c have "?rest = CHR '':'' # ?body \<or> ?rest = CHR '':'' # ?body @ [newline]"
      by auto
    with t w ne b nb show ?thesis
      unfolding command_pattern_def by blast
  qed
next
  assume "command_pattern t"
  then obtain name tail where t: "t = name @ tail" and ne: "name \<noteq> []"
    and w: "list_all is_word name"
    and tail: "tail = [] \<or> tail = [newline]
            \<or> (\<exists>body. body \<noteq> [] \<and> newline \<notin> set body
                  \<and> (tail = CHR '':'' # body \<or> tail = CHR '':'' # body @ [newline]))"
    unfolding command_pattern_def by blast
  from tail have "tail = [] \<or> \<not> is_word (hd tail)"
    using not_word_chars by auto
  from split_at_non_word [OF w this] t
  have tw: "takeWhile is_word t = name" and dw: "dropWhile is_word t = tail"
    by simp_all
  from tail consider "tail = [] \<or> tail = [newline]"
    | body where "body \<noteq> []" "newline \<notin> set body" "tail = CHR '':'' # body"
    | body where "body \<noteq> []" "newline \<notin> set body" "tail = CHR '':'' # body @ [newline]"
    by blast
  then show "match_code t \<noteq> None"
  proof cases
    case 1
    with ne show ?thesis
      by (auto simp: match_code_def tw dw)
  next
    case 2
    from split_at_newline [OF 2(2), of "[]"]
    have f: "takeWhile (\<lambda>x. x \<noteq> newline) body = body" "dropWhile (\<lambda>x. x \<noteq> newline) body = []"
      by simp_all
    from 2 ne show ?thesis
      by (simp add: match_code_def tw dw f Let_def)
  next
    case 3
    from split_at_newline [OF 3(2), of "[newline]"]
    have f: "takeWhile (\<lambda>x. x \<noteq> newline) (body @ [newline]) = body"
      "dropWhile (\<lambda>x. x \<noteq> newline) (body @ [newline]) = [newline]"
      by simp_all
    from 3 ne show ?thesis
      by (simp add: match_code_def tw dw f Let_def del: takeWhile_append dropWhile_append)
  qed
qed

lemma parse_rejects_outside_pattern:
  assumes "\<not> command_pattern (remove_sigil s)"
  shows "parse_jump_code s
           = Inl (PyExn ValueError (''Invalid jump code format: '' @ remove_sigil s))"
proof -
  from assms have "match_code (remove_sigil s) = None"
    using match_code_pattern [of "remove_sigil s"] by (cases "match_code (remove_sigil s)") auto
  then show ?thesis
    by (simp add: parse_jump_code_def)
qed

text \<open>
  The pattern is wider than the grammar of commands: a name may start with a digit, and
  a parameter token may be any text without a comma.
\<close>

lemma texts_outside_the_grammar_parse:
  "parse_jump_code ''@1abc:k=v''
     = Inr \<lparr>p_code = ''1abc'', p_parameters = [(''k'', VStr ''v'')]\<rparr>"
  "parse_jump_code ''@status:invalid format here''
     = Inr \<lparr>p_code = ''status'', p_parameters = [(''invalid format here'', VBool True)]\<rparr>"
  by (simp_all add: parser_defs char_class_defs)

text \<open>
  Claim C4, as the code has it. \<open>EnhancedJumpCodeProcessor.parse_jump_code\<close> fails with
  \<open>ValueError\<close> on every text that does not start with \<open>@\<close>.
  \<open>JumpCodeRegistry._parse_jump_code\<close> does not require the sigil: it removes one \<open>@\<close>
  only if the text starts with it, and so gives for a text without the sigil exactly
  what it gives for the same text with the sigil put in front; a second \<open>@\<close> is not
  removed, and a text that starts with two makes the parse fail.
\<close>

theorem sigil_required_only_by_enhanced_parser:
  "(\<not> prefix ''@'' s \<longrightarrow>
      enhanced_parse_jump_code s = Inl (PyExn ValueError (''Jump code must start with @: '' @ s)))
   \<and> (\<not> prefix ''@'' s \<longrightarrow> parse_jump_code s = parse_jump_code (CHR ''@'' # s))
   \<and> parse_jump_code (CHR ''@'' # CHR ''@'' # t)
       = Inl (PyExn ValueError (''Invalid jump code format: '' @ CHR ''@'' # t))"
proof (intro conjI impI)
  assume "\<not> prefix ''@'' s"
  then show "enhanced_parse_jump_code s
               = Inl (PyExn ValueError (''Jump code must start with @: '' @ s))"
    by (simp add: enhanced_parse_jump_code_def)
next
  assume "\<not> prefix ''@'' s"
  then have "remove_sigil s = remove_sigil (CHR ''@'' # s)"
    by (simp add: remove_sigil_def)
  then show "parse_jump_code s = parse_jump_code (CHR ''@'' # s)"
    by (simp add: parse_jump_code_def)
next
  have "match_code (CHR ''@'' # t) = None"
    by (simp add: match_code_def char_class_defs)
  then show "parse_jump_code (CHR ''@'' # CHR ''@'' # t)
       = Inl (PyExn ValueError (''Invalid jump code format: '' @ CHR ''@'' # t))"
    by (simp add: parse_jump_code_def remove_sigil_def)
qed

text \<open>
  The claim as stated fails: the registry's parser accepts \<open>status\<close> without the sigil.
\<close>

theorem sigil_less_input_parses:
  "parse_jump_code ''status'' = Inr \<lparr>p_code = ''status'', p_parameters = []\<rparr>"
  by (simp add: parser_defs char_class_defs)

theorem sigil_required_only_by_enhanced_parser_witness:
  "\<not> prefix ''@'' ''status:verbose''
   \<and> enhanced_parse_jump_code ''status:verbose''
       = Inl (PyExn ValueError ''Jump code must start with @: status:verbose'')
   \<and> parse_jump_code ''status:verbose'' = parse_jump_code ''@status:verbose''
   \<and> parse_jump_code ''@status:verbose''
       = Inr \<lparr>p_code = ''status'', p_parameters = [(''verbose'', VBool True)]\<rparr>
   \<and> parse_jump_code ''@@status''
       = Inl (PyExn ValueError ''Invalid jump code format: @status'')"
proof -
  have p: "\<not> prefix ''@'' ''status:verbose''"
    by simp
  have v: "parse_jump_code ''@status:verbose''
       = Inr \<lparr>p_code = ''status'', p_parameters = [(''verbose'', VBool True)]\<rparr>"
    by (simp add: parser_defs char_class_defs)
  from sigil_required_only_by_enhanced_parser [of "''status:verbose''" "''status''"] p v
  show ?thesis
    by simp
qed

end
